theory Spec2Isabelle
  imports Complex_Main
begin

section \<open>The topology chart of kytos (source/static/js/charts/topology.js)\<close>

text \<open>
  The chart keeps a force simulation over a list of node objects and a list of link
  objects whose \<open>source\<close> and \<open>target\<close> are references to those same node objects.
  The handlers mutate the node objects in place, so the embedding keeps the nodes in a
  store (a list addressed by position) and lets links and handlers refer to nodes by
  address.

  A number is held as a real (every finite double is one) or as \<open>NaN\<close>, which
  arithmetic on \<open>undefined\<close> produces; infinities are not held. Which arithmetic is
  modelled with the rounding of doubles and which on the reals is said under
  "Rounding to doubles".
\<close>

subsection \<open>JavaScript values held by the position fields\<close>

datatype jsval = Undefined | Null | Num real | NaN

text \<open>\<open>v == undefined\<close> holds for \<open>undefined\<close> and for \<open>null\<close>, and for nothing else.\<close>

definition eq_undefined :: "jsval \<Rightarrow> bool" where
  "eq_undefined v = (v = Undefined \<or> v = Null)"

text \<open>ToNumber: \<open>None\<close> stands for \<open>NaN\<close>.\<close>

fun to_number :: "jsval \<Rightarrow> real option" where
  "to_number Undefined = None"
| "to_number Null = Some 0"
| "to_number (Num r) = Some r"
| "to_number NaN = None"

definition js_arith :: "(real \<Rightarrow> real \<Rightarrow> real) \<Rightarrow> jsval \<Rightarrow> jsval \<Rightarrow> jsval" where
  "js_arith f a b =
     (case to_number a of
        None \<Rightarrow> NaN
      | Some u \<Rightarrow> (case to_number b of None \<Rightarrow> NaN | Some v \<Rightarrow> Num (f u v)))"

definition js_add :: "jsval \<Rightarrow> jsval \<Rightarrow> jsval" where
  "js_add = js_arith (\<lambda>u v. u + v)"

definition js_sub :: "jsval \<Rightarrow> jsval \<Rightarrow> jsval" where
  "js_sub = js_arith (\<lambda>u v. u - v)"

definition js_mul :: "jsval \<Rightarrow> jsval \<Rightarrow> jsval" where
  "js_mul = js_arith (\<lambda>u v. u * v)"

text \<open>\<open>Math.atan2(y, x)\<close> on reals: the angle of the point \<open>(x, y)\<close> in \<open>(-pi, pi]\<close>,
  and \<open>0\<close> at the origin.\<close>

definition atan2 :: "real \<Rightarrow> real \<Rightarrow> real" where
  "atan2 v u =
     (if 0 < u then arctan (v / u)
      else if u < 0 then (if 0 \<le> v then arctan (v / u) + pi else arctan (v / u) - pi)
      else if 0 < v then pi / 2
      else if v < 0 then - (pi / 2)
      else 0)"

definition js_atan2 :: "jsval \<Rightarrow> jsval \<Rightarrow> jsval" where
  "js_atan2 = js_arith atan2"

definition js_cos :: "jsval \<Rightarrow> jsval" where
  "js_cos a = (case to_number a of None \<Rightarrow> NaN | Some r \<Rightarrow> Num (cos r))"

definition js_sin :: "jsval \<Rightarrow> jsval" where
  "js_sin a = (case to_number a of None \<Rightarrow> NaN | Some r \<Rightarrow> Num (sin r))"

subsection \<open>Rounding to doubles\<close>

text \<open>
  A sum or difference of two doubles is the exact result rounded to the nearest double,
  a tie going to the double with the even significand. \<open>fl\<close> is that rounding for the
  53-bit significand and the least exponent of the doubles (below \<open>2^-1022\<close> the
  doubles are \<open>2^-1074\<close> apart). It has no largest exponent: it is the code's rounding
  of every exact result that does not round beyond the largest double (\<open>no_overflow\<close>);
  beyond, the code yields \<open>Infinity\<close>, which \<open>jsval\<close> does not hold.

  The switch branch of \<open>dragged\<close> computes with these rounded operations. The interface
  branch goes through \<open>Math.atan2\<close>, \<open>Math.cos\<close> and \<open>Math.sin\<close>, whose results the language
  leaves to the implementation up to an approximation: \<open>radius_positioning\<close> stays on the
  reals (\<open>js_add\<close>, \<open>js_sub\<close>, \<open>js_mul\<close> above), and what is proved of it holds of the code
  within floating-point tolerance.
\<close>

definition round_half_even :: "real \<Rightarrow> int" where
  "round_half_even y =
     (if y - of_int \<lfloor>y\<rfloor> < 1 / 2 then \<lfloor>y\<rfloor>
      else if 1 / 2 < y - of_int \<lfloor>y\<rfloor> then \<lfloor>y\<rfloor> + 1
      else if even \<lfloor>y\<rfloor> then \<lfloor>y\<rfloor> else \<lfloor>y\<rfloor> + 1)"

text \<open>The exponent of the last place of the doubles around \<open>x\<close>.\<close>

definition double_exponent :: "real \<Rightarrow> int" where
  "double_exponent x = max (\<lfloor>log 2 \<bar>x\<bar>\<rfloor> - 52) (- 1074)"

definition fl :: "real \<Rightarrow> real" where
  "fl x =
     (if x = 0 then 0
      else of_int (round_half_even (x / 2 powr of_int (double_exponent x))) *
           2 powr of_int (double_exponent x))"

definition no_overflow :: "real \<Rightarrow> bool" where
  "no_overflow x = (\<bar>x\<bar> < 2 powr 1024 - 2 powr 970)"

text \<open>Half a unit in the last place: the most that rounding moves \<open>x\<close>.\<close>

definition half_ulp :: "real \<Rightarrow> real" where
  "half_ulp x = 2 powr of_int (double_exponent x) / 2"

definition js_add_fl :: "jsval \<Rightarrow> jsval \<Rightarrow> jsval" where
  "js_add_fl = js_arith (\<lambda>u v. fl (u + v))"

definition js_sub_fl :: "jsval \<Rightarrow> jsval \<Rightarrow> jsval" where
  "js_sub_fl = js_arith (\<lambda>u v. fl (u - v))"

subsection \<open>Identifier escaping\<close>

text \<open>\<open>fix_name\<close> is \<open>name.toString().replace(/:/g, '__')\<close>: every colon becomes two
  underscores.\<close>

fun fix_name :: "string \<Rightarrow> string" where
  "fix_name [] = []"
| "fix_name (c # cs) = (if c = CHR '':'' then ''__'' @ fix_name cs else c # fix_name cs)"

text \<open>\<open>unfix_name\<close> is \<open>name.toString().replace(/\_\_/g, ':')\<close>: scanning from the left,
  every two adjacent underscores not already consumed become one colon.\<close>

fun unfix_name :: "string \<Rightarrow> string" where
  "unfix_name [] = []"
| "unfix_name [c] = [c]"
| "unfix_name (a # b # cs) =
     (if a = CHR ''_'' \<and> b = CHR ''_'' then CHR '':'' # unfix_name cs
      else a # unfix_name (b # cs))"

text \<open>A name survives the round trip exactly when no underscore in it is immediately
  followed by an underscore or by a colon.\<close>

fun clash_free :: "string \<Rightarrow> bool" where
  "clash_free [] = True"
| "clash_free [c] = True"
| "clash_free (a # b # cs) =
     (\<not> (a = CHR ''_'' \<and> (b = CHR ''_'' \<or> b = CHR '':'')) \<and> clash_free (b # cs))"

subsection \<open>Per-type parameters\<close>

text \<open>The object literals \<open>size\<close> and \<open>distance\<close>; reading a key that is not there
  gives \<open>undefined\<close>.\<close>

definition js_lookup :: "(string \<times> jsval) list \<Rightarrow> string \<Rightarrow> jsval" where
  "js_lookup tbl k = (case map_of tbl k of None \<Rightarrow> Undefined | Some v \<Rightarrow> v)"

definition size_tbl :: "(string \<times> jsval) list" where
  "size_tbl = [(''switch'', Num 20), (''interface'', Num 5), (''host'', Num 10)]"

definition distance :: "(string \<times> jsval) list" where
  "distance =
     [(''link'', js_mul (Num 20) (js_lookup size_tbl ''switch'')),
      (''interface'', js_add (js_lookup size_tbl ''switch'') (Num 10)),
      (''host'', js_mul (Num 5) (js_lookup size_tbl ''interface''))]"

subsection \<open>Nodes, links, drawn circles and the page\<close>

text \<open>A node object. \<open>pos_x\<close> and \<open>pos_y\<close> are the fields \<open>x\<close> and \<open>y\<close>; \<open>ntype\<close> is
  \<open>type\<close>.\<close>

record node =
  name :: string
  ntype :: string
  pos_x :: jsval
  pos_y :: jsval
  fx :: jsval
  fy :: jsval
  old_fx :: jsval
  old_fy :: jsval

text \<open>A link of \<open>simulation.force('link').links()\<close>: the force has replaced the ids in
  \<open>source\<close> and \<open>target\<close> by the node objects, here their addresses in the node list.\<close>

record link =
  ltype :: string
  source :: nat
  target :: nat

text \<open>The circle element drawn for a node: its \<open>id\<close> attribute and the two classes the
  chart toggles.\<close>

record circle =
  cid :: string
  downlight :: bool
  invisible :: bool

datatype sel_option = Placeholder | Opt string

datatype error = TypeError

record node_data =
  d_name :: string
  d_type :: string
  d_x :: jsval
  d_y :: jsval
  d_fx :: jsval
  d_fy :: jsval
  d_downlight :: bool

text \<open>The object \<open>layout.nodes\<close>: its own properties, and its prototype when an assignment
  to the key \<open>__proto__\<close> has replaced \<open>Object.prototype\<close> by a node-data object.\<close>

record nodes_obj =
  own :: "string \<Rightarrow> node_data option"
  proto :: "node_data option"

record layout =
  l_nodes :: nodes_obj
  o_hide_unused_interfaces :: bool
  o_hide_disconnected_hosts :: bool

text \<open>What the user or the layout store gets to see, in the order it happens.\<close>

datatype effect =
    Alert string
  | AjaxPost string layout
  | ModalHide
  | SimRestart

text \<open>The simulation's nodes and links, the circles of the chart in document order, the
  two checkboxes, the name input of the save dialog, the global \<open>layout_name\<close>, the
  options of the \<open>savedLayouts\<close> control and the effects so far.\<close>

record state =
  nodes :: "node list"
  links :: "link list"
  circles :: "circle list"
  hide_unused_interfaces :: bool
  hide_disconnected_hosts :: bool
  layout_name_input :: string
  layout_name :: string
  savedLayouts :: "sel_option list"
  effects :: "effect list"

text \<open>The \<open>id\<close> the chart gives the circle of a node when it draws the graph.\<close>

definition node_id :: "node \<Rightarrow> string" where
  "node_id d = ''node-'' @ ntype d @ ''-'' @ fix_name (name d)"

text \<open>
  \<open>d3.select('#' + i)\<close> hands the string \<open>'#' + i\<close> to the selector engine of the page,
  which reads it as a CSS selector. The part of that language modelled here is an id
  selector followed by class selectors: identifiers joined by dots, as in \<open>#a.b.c\<close>,
  which selects the first element in document order whose id is \<open>a\<close> and which has the
  classes \<open>b\<close> and \<open>c\<close>. An identifier is read without escapes: name characters (letters,
  digits, \<open>_\<close>, \<open>-\<close> and all characters beyond ASCII) that start as an identifier does.
  Ids and classes are compared exactly, as in a standards-mode document, and the circles
  are the only elements that carry such ids; the only classes a circle ever has are
  \<open>downlight\<close> and \<open>invisible\<close>. Any other string (one with a space, a slash, a dot before
  a digit, ...) is outside the model: the engine may throw on it or match by other
  rules, \<open>d3_select\<close> gives \<open>None\<close>, and every property below that goes through
  \<open>d3_select\<close> is stated for ids that are identifiers (\<open>ids_plain\<close>) or evaluated on an
  id of the modelled part.
\<close>

definition name_start :: "char \<Rightarrow> bool" where
  "name_start c =
     ((65 \<le> (of_char c :: nat) \<and> (of_char c :: nat) \<le> 90) \<or>
      (97 \<le> (of_char c :: nat) \<and> (of_char c :: nat) \<le> 122) \<or>
      (of_char c :: nat) = 95 \<or> 128 \<le> (of_char c :: nat))"

definition name_char :: "char \<Rightarrow> bool" where
  "name_char c =
     (name_start c \<or> (48 \<le> (of_char c :: nat) \<and> (of_char c :: nat) \<le> 57) \<or>
      c = CHR ''-'')"

fun css_ident :: "string \<Rightarrow> bool" where
  "css_ident [] = False"
| "css_ident [c] = name_start c"
| "css_ident (c # d # cs) =
     ((name_start c \<or> (c = CHR ''-'' \<and> (name_start d \<or> d = CHR ''-''))) \<and>
      list_all name_char (d # cs))"

text \<open>The pieces of a string between its dots.\<close>

fun split_dots :: "string \<Rightarrow> string list" where
  "split_dots [] = [[]]"
| "split_dots (c # cs) =
     (if c = CHR ''.'' then [] # split_dots cs
      else (case split_dots cs of [] \<Rightarrow> [[c]] | s # ss \<Rightarrow> (c # s) # ss))"

definition has_class :: "string \<Rightarrow> circle \<Rightarrow> bool" where
  "has_class k c = ((k = ''downlight'' \<and> downlight c) \<or> (k = ''invisible'' \<and> invisible c))"

text \<open>The address of the first element of a list that meets a condition.\<close>

fun first_match :: "('a \<Rightarrow> bool) \<Rightarrow> 'a list \<Rightarrow> nat option" where
  "first_match P [] = None"
| "first_match P (c # cs) = (if P c then Some 0 else map_option Suc (first_match P cs))"

definition d3_select :: "string \<Rightarrow> circle list \<Rightarrow> nat option" where
  "d3_select i cs =
     (case split_dots i of
        [] \<Rightarrow> None
      | ident # classes \<Rightarrow>
          if list_all css_ident (ident # classes)
          then first_match (\<lambda>c. cid c = ident \<and> list_all (\<lambda>k. has_class k c) classes) cs
          else None)"

text \<open>\<open>selection.classed(cls, v)\<close> with a value sets the class on the selected element
  and does nothing on an empty selection; \<open>selection.classed(cls)\<close> reads the class of
  the selected element and throws on an empty selection.\<close>

definition classed_invisible :: "string \<Rightarrow> bool \<Rightarrow> circle list \<Rightarrow> circle list" where
  "classed_invisible i v cs =
     (case d3_select i cs of None \<Rightarrow> cs | Some k \<Rightarrow> cs[k := (cs ! k)\<lparr>invisible := v\<rparr>])"

definition classed_downlight :: "string \<Rightarrow> bool \<Rightarrow> circle list \<Rightarrow> circle list" where
  "classed_downlight i v cs =
     (case d3_select i cs of None \<Rightarrow> cs | Some k \<Rightarrow> cs[k := (cs ! k)\<lparr>downlight := v\<rparr>])"

definition get_classed_downlight :: "string \<Rightarrow> circle list \<Rightarrow> error + bool" where
  "get_classed_downlight i cs =
     (case d3_select i cs of None \<Rightarrow> Inl TypeError | Some k \<Rightarrow> Inr (downlight (cs ! k)))"

text \<open>\<open>$.each\<close> over a list with a callback that may throw: the first exception ends
  the loop.\<close>

fun each :: "('a \<Rightarrow> 's \<Rightarrow> error + 's) \<Rightarrow> 'a list \<Rightarrow> 's \<Rightarrow> error + 's" where
  "each f [] s = Inr s"
| "each f (a # as) s = (case f a s of Inl e \<Rightarrow> Inl e | Inr s' \<Rightarrow> each f as s')"

subsection \<open>Lookups over the links and nodes\<close>

text \<open>The loop keeps the source of the last matching link; \<open>None\<close> is \<open>null\<close>.\<close>

definition get_interface_owner :: "state \<Rightarrow> nat \<Rightarrow> nat option" where
  "get_interface_owner st d =
     fold (\<lambda>l searched_switch.
             if ltype l = ''interface'' \<and> name (nodes st ! target l) = name (nodes st ! d)
             then Some (source l) else searched_switch)
          (links st) None"

definition get_switch_interfaces :: "state \<Rightarrow> nat \<Rightarrow> nat list" where
  "get_switch_interfaces st d =
     map target
       (filter (\<lambda>l. ltype l = ''interface'' \<and> name (nodes st ! source l) = name (nodes st ! d))
          (links st))"

definition get_nodes_by_type :: "state \<Rightarrow> string \<Rightarrow> nat list" where
  "get_nodes_by_type st t = filter (\<lambda>i. ntype (nodes st ! i) = t) [0..<length (nodes st)]"

definition get_interfaces :: "state \<Rightarrow> nat list" where
  "get_interfaces st = get_nodes_by_type st ''interface''"

definition get_node_links :: "state \<Rightarrow> nat \<Rightarrow> link list" where
  "get_node_links st i = filter (\<lambda>l. target l = i \<or> source l = i) (links st)"

subsection \<open>Dragging and releasing\<close>

definition radius_positioning :: "jsval \<Rightarrow> jsval \<Rightarrow> jsval \<Rightarrow> jsval \<Rightarrow> jsval \<times> jsval" where
  "radius_positioning cx cy px py =
     (let delta_x = js_sub px cx;
          delta_y = js_sub py cy;
          rad = js_atan2 delta_y delta_x;
          new_x = js_add cx (js_mul (js_cos rad) (js_lookup distance ''interface''));
          new_y = js_add cy (js_mul (js_sin rad) (js_lookup distance ''interface''))
      in (new_x, new_y))"

text \<open>The body of the loop over a dragged switch's interfaces.\<close>

definition drag_interface :: "jsval \<Rightarrow> jsval \<Rightarrow> node \<Rightarrow> node" where
  "drag_interface delta_x delta_y iface =
     (let i1 = (if eq_undefined (fx iface)
                then iface\<lparr>fx := pos_x iface, fy := pos_y iface\<rparr> else iface)
      in i1\<lparr>fx := js_add_fl (fx i1) delta_x, fy := js_add_fl (fy i1) delta_y\<rparr>)"

definition update_node :: "nat \<Rightarrow> (node \<Rightarrow> node) \<Rightarrow> state \<Rightarrow> state" where
  "update_node i f st = st\<lparr>nodes := (nodes st)[i := f (nodes st ! i)]\<rparr>"

text \<open>\<open>dragged\<close> on the node at address \<open>d\<close> with the pointer at \<open>(ex, ey)\<close>
  (\<open>d3.event.x\<close>, \<open>d3.event.y\<close>). Reading \<open>owner.fx\<close> of a \<open>null\<close> owner throws.\<close>

definition dragged :: "state \<Rightarrow> nat \<Rightarrow> real \<Rightarrow> real \<Rightarrow> error + state" where
  "dragged st d ex ey =
     (if ntype (nodes st ! d) = ''switch'' then
        (let st1 = update_node d
                     (\<lambda>n. n\<lparr>old_fx := fx n, old_fy := fy n, fx := Num ex, fy := Num ey\<rparr>) st;
             delta_x = js_sub_fl (fx (nodes st1 ! d)) (old_fx (nodes st1 ! d));
             delta_y = js_sub_fl (fy (nodes st1 ! d)) (old_fy (nodes st1 ! d))
         in Inr (fold (\<lambda>i. update_node i (drag_interface delta_x delta_y))
                   (get_switch_interfaces st1 d) st1))
      else if ntype (nodes st ! d) = ''interface'' then
        (case get_interface_owner st d of
           None \<Rightarrow> Inl TypeError
         | Some ow \<Rightarrow>
             (let owner = nodes st ! ow;
                  cx = (if eq_undefined (fx owner) then pos_x owner else fx owner);
                  cy = (if eq_undefined (fx owner) then pos_y owner else fy owner);
                  new_positions = radius_positioning cx cy (Num ex) (Num ey)
              in Inr (update_node d
                        (\<lambda>n. n\<lparr>fx := fst new_positions, fy := snd new_positions\<rparr>) st)))
      else Inr (update_node d (\<lambda>n. n\<lparr>fx := Num ex, fy := Num ey\<rparr>) st))"

definition release_node :: "state \<Rightarrow> nat \<Rightarrow> state" where
  "release_node st d =
     (let st1 = update_node d (\<lambda>n. n\<lparr>fx := Null, fy := Null\<rparr>) st
      in if ntype (nodes st1 ! d) = ''switch''
         then fold (\<lambda>i. update_node i (\<lambda>n. n\<lparr>fx := Null, fy := Null\<rparr>))
                (get_switch_interfaces st1 d) st1
         else st1)"

subsection \<open>Visibility toggles\<close>

text \<open>The body of the loop of \<open>toggle_unused_interfaces\<close> for the interface at address
  \<open>i\<close>.\<close>

definition unused_step :: "bool \<Rightarrow> nat \<Rightarrow> state \<Rightarrow> state" where
  "unused_step hide i s =
     (let unused = fold (\<lambda>l unused. if ltype l = ''link'' then False else unused)
                     (get_node_links s i) True
      in if unused
         then s\<lparr>circles :=
                  classed_invisible (''node-interface-'' @ fix_name (name (nodes s ! i)))
                    hide (circles s)\<rparr>
         else s)"

definition toggle_unused_interfaces :: "bool \<Rightarrow> state \<Rightarrow> state" where
  "toggle_unused_interfaces hide st = fold (unused_step hide) (get_interfaces st) st"

definition toggle_disconnected_hosts :: "bool \<Rightarrow> state \<Rightarrow> state" where
  "toggle_disconnected_hosts hide st =
     fold (\<lambda>i s.
             if length (get_node_links s i) = 0
             then s\<lparr>circles :=
                      classed_invisible (''node-host-'' @ fix_name (name (nodes s ! i)))
                        hide (circles s)\<rparr>
             else s)
          (get_nodes_by_type st ''host'') st"

subsection \<open>The object \<open>layout.nodes\<close>\<close>

text \<open>The properties every plain object inherits from \<open>Object.prototype\<close>: the operator
  \<open>in\<close> finds them on an object that has no such property of its own.\<close>

definition object_prototype_keys :: "string list" where
  "object_prototype_keys =
     [''constructor'', ''hasOwnProperty'', ''isPrototypeOf'', ''propertyIsEnumerable'',
      ''toLocaleString'', ''toString'', ''valueOf'', ''__proto__'',
      ''__defineGetter__'', ''__defineSetter__'', ''__lookupGetter__'', ''__lookupSetter__'']"

text \<open>The keys of the object literal \<open>node_data\<close> of \<open>get_current_layout\<close>.\<close>

definition node_data_keys :: "string list" where
  "node_data_keys = [''name'', ''type'', ''x'', ''y'', ''fx'', ''fy'', ''downlight'']"

text \<open>\<open>obj[k] = v\<close> for an object \<open>v\<close>: the key \<open>__proto__\<close> is the prototype's setter
  unless the object has a property of its own under that name.\<close>

definition js_set :: "string \<Rightarrow> node_data \<Rightarrow> nodes_obj \<Rightarrow> nodes_obj" where
  "js_set k v obj =
     (if k = ''__proto__'' \<and> own obj k = None then obj\<lparr>proto := Some v\<rparr>
      else obj\<lparr>own := (own obj)(k \<mapsto> v)\<rparr>)"

text \<open>\<open>k in obj\<close>: an own property, or one found along the prototype chain.\<close>

definition js_in :: "string \<Rightarrow> nodes_obj \<Rightarrow> bool" where
  "js_in k obj =
     (own obj k \<noteq> None \<or> k \<in> set object_prototype_keys \<or>
      (proto obj \<noteq> None \<and> k \<in> set node_data_keys))"

text \<open>What \<open>obj[k]\<close> is, as far as the reads \<open>.x\<close>, \<open>.y\<close>, \<open>.fx\<close>, \<open>.fy\<close> and
  \<open>.downlight\<close> of \<open>restore_layout\<close> can tell: a node-data object; a value on which all
  five read \<open>undefined\<close> (a function, \<open>Object.prototype\<close>, a string, a number, a
  boolean); or \<open>undefined\<close>/\<open>null\<close>, on which a property read throws.\<close>

datatype looked_up = Obj node_data | NoFields | Nullish

definition primitive :: "jsval \<Rightarrow> looked_up" where
  "primitive v = (if eq_undefined v then Nullish else NoFields)"

definition js_get :: "string \<Rightarrow> nodes_obj \<Rightarrow> looked_up" where
  "js_get k obj =
     (case own obj k of
        Some v \<Rightarrow> Obj v
      | None \<Rightarrow>
          (case proto obj of
             None \<Rightarrow> (if k \<in> set object_prototype_keys then NoFields else Nullish)
           | Some p \<Rightarrow>
               if k = ''__proto__'' then Obj p
               else if k = ''x'' then primitive (d_x p)
               else if k = ''y'' then primitive (d_y p)
               else if k = ''fx'' then primitive (d_fx p)
               else if k = ''fy'' then primitive (d_fy p)
               else if k \<in> set node_data_keys \<or> k \<in> set object_prototype_keys then NoFields
               else Nullish))"

subsection \<open>Capturing, saving, listing and restoring layouts\<close>

definition layouts_url :: string where
  "layouts_url = ''http://127.0.0.1:5000/kytos/web/topology/layouts/''"

text \<open>The body of the loop of \<open>get_current_layout\<close> for the node at address \<open>idx\<close>.\<close>

definition capture_node :: "state \<Rightarrow> nat \<Rightarrow> nodes_obj \<Rightarrow> error + nodes_obj" where
  "capture_node st idx obj =
     (let node = nodes st ! idx in
      case get_classed_downlight (node_id node) (circles st) of
        Inl e \<Rightarrow> Inl e
      | Inr dl \<Rightarrow>
          Inr (js_set (name node)
                 \<lparr>d_name = name node, d_type = ntype node, d_x = pos_x node, d_y = pos_y node,
                  d_fx = fx node, d_fy = fy node, d_downlight = dl\<rparr> obj))"

definition get_current_layout :: "state \<Rightarrow> error + layout" where
  "get_current_layout st =
     (case each (capture_node st) [0..<length (nodes st)] \<lparr>own = Map.empty, proto = None\<rparr> of
        Inl e \<Rightarrow> Inl e
      | Inr obj \<Rightarrow>
          Inr \<lparr>l_nodes = obj,
               o_hide_unused_interfaces = hide_unused_interfaces st,
               o_hide_disconnected_hosts = hide_disconnected_hosts st\<rparr>)"

text \<open>\<open>save_layout\<close> up to its return: the request is issued and still in flight.\<close>

definition save_layout :: "state \<Rightarrow> error + state" where
  "save_layout st =
     (let st1 = st\<lparr>layout_name := layout_name_input st\<rparr> in
      if layout_name st1 = [] then
        Inr (st1\<lparr>effects := effects st1 @ [Alert ''Please, choose a name for the layout.'']\<rparr>)
      else
        (case get_current_layout st1 of
           Inl e \<Rightarrow> Inl e
         | Inr lay \<Rightarrow>
             Inr (st1\<lparr>effects := effects st1 @
                         [AjaxPost (layouts_url @ layout_name st1) lay, ModalHide]\<rparr>)))"

text \<open>The two handlers of the request, \<open>success\<close> and \<open>.done\<close>, which run in this order
  when the store answers with success; no handler is registered for a failure.\<close>

definition save_layout_success :: "state \<Rightarrow> state" where
  "save_layout_success st =
     st\<lparr>effects := effects st @ [Alert (''Layout '' @ layout_name st @ '' saved.''), ModalHide]\<rparr>"

definition save_layout_done :: "state \<Rightarrow> state" where
  "save_layout_done st =
     st\<lparr>effects := effects st @ [Alert (''Layout '' @ layout_name st @ '' saved.''), ModalHide]\<rparr>"

definition save_layout_resolved :: "bool \<Rightarrow> state \<Rightarrow> state" where
  "save_layout_resolved ok st = (if ok then save_layout_done (save_layout_success st) else st)"

text \<open>What the store answers to the request for the list of layouts.\<close>

datatype response = RUndefined | RNull | RArray "string list"

text \<open>The \<open>success\<close> handler of \<open>load_layouts\<close>.\<close>

fun resp_eq_undefined :: "response \<Rightarrow> bool" where
  "resp_eq_undefined RUndefined = True"
| "resp_eq_undefined RNull = True"
| "resp_eq_undefined (RArray items) = False"

fun array_items :: "response \<Rightarrow> string list" where
  "array_items (RArray items) = items"
| "array_items _ = []"

definition load_layouts_success :: "response \<Rightarrow> state \<Rightarrow> state" where
  "load_layouts_success layouts st =
     (if resp_eq_undefined layouts then
        st\<lparr>effects := effects st @ [Alert ''There isn't any saved layout to be loaded'']\<rparr>
      else
        st\<lparr>savedLayouts := Placeholder # map Opt (array_items layouts)\<rparr>)"

text \<open>
  The layout reaches the store as \<open>JSON.stringify(layout)\<close> and comes back parsed by
  \<open>$.getJSON\<close>. The text holds the own properties of each object: a property whose value is
  \<open>undefined\<close> is left out and reads \<open>undefined\<close> again, \<open>NaN\<close> is written \<open>null\<close>, and
  what the object inherits from its prototype is not written. The parsed objects have
  \<open>Object.prototype\<close> as their prototype. The store is taken to return what was posted.
\<close>

fun json_value :: "jsval \<Rightarrow> jsval" where
  "json_value Undefined = Undefined"
| "json_value Null = Null"
| "json_value (Num r) = Num r"
| "json_value NaN = Null"

definition json_node_data :: "node_data \<Rightarrow> node_data" where
  "json_node_data v =
     v\<lparr>d_x := json_value (d_x v), d_y := json_value (d_y v),
       d_fx := json_value (d_fx v), d_fy := json_value (d_fy v)\<rparr>"

definition json_layout :: "layout \<Rightarrow> layout" where
  "json_layout lay =
     lay\<lparr>l_nodes :=
           \<lparr>own = (\<lambda>k. map_option json_node_data (own (l_nodes lay) k)), proto = None\<rparr>\<rparr>"

text \<open>The five writes of \<open>restore_layout\<close> for one node.\<close>

definition apply_restored ::
  "nat \<Rightarrow> jsval \<Rightarrow> jsval \<Rightarrow> jsval \<Rightarrow> jsval \<Rightarrow> bool \<Rightarrow> state \<Rightarrow> state" where
  "apply_restored idx vx vy vfx vfy dl st =
     (let st1 = update_node idx (\<lambda>n. n\<lparr>pos_x := vx, pos_y := vy, fx := vfx, fy := vfy\<rparr>) st
      in st1\<lparr>circles := classed_downlight (node_id (nodes st1 ! idx)) dl (circles st1)\<rparr>)"

definition restore_node :: "layout \<Rightarrow> nat \<Rightarrow> state \<Rightarrow> error + state" where
  "restore_node lay idx st =
     (if js_in (name (nodes st ! idx)) (l_nodes lay) then
        (case js_get (name (nodes st ! idx)) (l_nodes lay) of
           Nullish \<Rightarrow> Inl TypeError
         | NoFields \<Rightarrow> Inr (apply_restored idx Undefined Undefined Undefined Undefined False st)
         | Obj r \<Rightarrow>
             Inr (apply_restored idx (d_x r) (d_y r) (d_fx r) (d_fy r) (d_downlight r) st))
      else Inr st)"

text \<open>The callback of \<open>restore_layout\<close>, run on the layout the store returns. A
  synthesised click flips the checkbox and runs the page's handler for it, which is not
  part of this file and is a parameter here.\<close>

definition restore_layout ::
  "(state \<Rightarrow> state) \<Rightarrow> (state \<Rightarrow> state) \<Rightarrow> layout \<Rightarrow> state \<Rightarrow> error + state" where
  "restore_layout click_interfaces click_hosts lay st =
     (case each (restore_node lay) [0..<length (nodes st)] st of
        Inl e \<Rightarrow> Inl e
      | Inr s1 \<Rightarrow>
          (let s2 = (if o_hide_unused_interfaces lay \<noteq> hide_unused_interfaces s1
                     then click_interfaces
                            (s1\<lparr>hide_unused_interfaces := \<not> hide_unused_interfaces s1\<rparr>)
                     else s1);
               s3 = (if o_hide_disconnected_hosts lay \<noteq> hide_disconnected_hosts s2
                     then click_hosts
                            (s2\<lparr>hide_disconnected_hosts := \<not> hide_disconnected_hosts s2\<rparr>)
                     else s2)
           in Inr (s3\<lparr>effects := effects s3 @ [SimRestart]\<rparr>)))"

subsection \<open>Well-formed states and the notions the properties speak of\<close>

text \<open>Every link end is the address of a node of the simulation: the link force throws
  on an id it cannot resolve, so no other link list exists.\<close>

definition links_resolved :: "state \<Rightarrow> bool" where
  "links_resolved st =
     list_all (\<lambda>l. source l < length (nodes st) \<and> target l < length (nodes st)) (links st)"

text \<open>The chart has drawn one circle per node, in the order of the nodes, under the id
  computed from the node.\<close>

definition circles_drawn :: "state \<Rightarrow> bool" where
  "circles_drawn st = (map cid (circles st) = map node_id (nodes st))"

text \<open>Every circle's id is an identifier, so that \<open>'#' + id\<close> is the id selector of that
  id.\<close>

definition ids_plain :: "state \<Rightarrow> bool" where
  "ids_plain st = list_all css_ident (map cid (circles st))"

fun numbers :: "jsval \<Rightarrow> jsval \<Rightarrow> (real \<times> real) option" where
  "numbers (Num a) (Num b) = Some (a, b)"
| "numbers _ _ = None"

text \<open>The pinned position of a node, when it has one.\<close>

definition pin :: "node \<Rightarrow> (real \<times> real) option" where
  "pin n = numbers (fx n) (fy n)"

text \<open>The current position of a node: its pin when it is pinned, \<open>(x, y)\<close> otherwise.\<close>

definition current_position :: "node \<Rightarrow> (real \<times> real) option" where
  "current_position n =
     (if eq_undefined (fx n) then numbers (pos_x n) (pos_y n) else numbers (fx n) (fy n))"

text \<open>The three node types of a topology.\<close>

definition known_type :: "string \<Rightarrow> bool" where
  "known_type t = (t = ''switch'' \<or> t = ''interface'' \<or> t = ''host'')"

text \<open>The circles \<open>cs\<close> with the class \<open>invisible\<close> set to \<open>h\<close> on those at the addresses
  in \<open>U\<close>.\<close>

definition mark :: "bool \<Rightarrow> (nat \<Rightarrow> bool) \<Rightarrow> circle list \<Rightarrow> circle list" where
  "mark h U cs = map (\<lambda>k. if U k then (cs ! k)\<lparr>invisible := h\<rparr> else cs ! k) [0..<length cs]"

text \<open>An interface is unused when no link of type \<open>link\<close> starts or ends at it.\<close>

definition unused_interface :: "state \<Rightarrow> nat \<Rightarrow> bool" where
  "unused_interface st i =
     (ntype (nodes st ! i) = ''interface'' \<and>
      \<not> list_ex (\<lambda>l. ltype l = ''link'' \<and> (target l = i \<or> source l = i)) (links st))"

text \<open>The node-data object that \<open>get_current_layout\<close> builds for the node at address
  \<open>idx\<close>.\<close>

definition captured :: "state \<Rightarrow> nat \<Rightarrow> node_data" where
  "captured st idx =
     \<lparr>d_name = name (nodes st ! idx), d_type = ntype (nodes st ! idx),
      d_x = pos_x (nodes st ! idx), d_y = pos_y (nodes st ! idx),
      d_fx = fx (nodes st ! idx), d_fy = fy (nodes st ! idx),
      d_downlight =
        (case d3_select (node_id (nodes st ! idx)) (circles st) of
           None \<Rightarrow> False
         | Some m \<Rightarrow> downlight (circles st ! m))\<rparr>"

text \<open>\<open>obj[k]\<close> is the object \<open>v\<close>: as a property of its own, or as the prototype that an
  assignment to \<open>__proto__\<close> has installed.\<close>

definition has_property :: "string \<Rightarrow> node_data \<Rightarrow> nodes_obj \<Rightarrow> bool" where
  "has_property k v obj =
     (own obj k = Some v \<or> (k = ''__proto__'' \<and> own obj k = None \<and> proto obj = Some v))"

subsection \<open>A small topology\<close>

text \<open>One switch pinned at \<open>(100, 100)\<close> with two interfaces, the first pinned on the
  ring and linked to a host, the second not pinned and without a link.\<close>

definition demo_state :: state where
  "demo_state =
     \<lparr>nodes =
        [\<lparr>name = ''00:01'', ntype = ''switch'', pos_x = Num 100, pos_y = Num 100,
          fx = Num 100, fy = Num 100, old_fx = Num 100, old_fy = Num 100\<rparr>,
         \<lparr>name = ''00:01:1'', ntype = ''interface'', pos_x = Num 130, pos_y = Num 100,
          fx = Num 130, fy = Num 100, old_fx = Undefined, old_fy = Undefined\<rparr>,
         \<lparr>name = ''00:01:2'', ntype = ''interface'', pos_x = Num 100, pos_y = Num 130,
          fx = Undefined, fy = Undefined, old_fx = Undefined, old_fy = Undefined\<rparr>,
         \<lparr>name = ''h1'', ntype = ''host'', pos_x = Num 200, pos_y = Num 100,
          fx = Undefined, fy = Undefined, old_fx = Undefined, old_fy = Undefined\<rparr>],
      links =
        [\<lparr>ltype = ''interface'', source = 0, target = 1\<rparr>,
         \<lparr>ltype = ''interface'', source = 0, target = 2\<rparr>,
         \<lparr>ltype = ''link'', source = 1, target = 3\<rparr>],
      circles =
        [\<lparr>cid = ''node-switch-00__01'', downlight = False, invisible = False\<rparr>,
         \<lparr>cid = ''node-interface-00__01__1'', downlight = False, invisible = False\<rparr>,
         \<lparr>cid = ''node-interface-00__01__2'', downlight = True, invisible = False\<rparr>,
         \<lparr>cid = ''node-host-h1'', downlight = False, invisible = False\<rparr>],
      hide_unused_interfaces = False, hide_disconnected_hosts = False,
      layout_name_input = ''A'', layout_name = [], savedLayouts = [], effects = []\<rparr>"

text \<open>A malformed graph: an interface that no \<open>interface\<close> link targets.\<close>

definition ownerless_state :: state where
  "ownerless_state =
     \<lparr>nodes =
        [\<lparr>name = ''eth1'', ntype = ''interface'', pos_x = Num 10, pos_y = Num 20,
          fx = Num 10, fy = Num 20, old_fx = Undefined, old_fy = Undefined\<rparr>],
      links = [],
      circles = [\<lparr>cid = ''node-interface-eth1'', downlight = False, invisible = False\<rparr>],
      hide_unused_interfaces = False, hide_disconnected_hosts = False,
      layout_name_input = [], layout_name = [], savedLayouts = [], effects = []\<rparr>"

text \<open>A host that carries the name of a method of \<open>Object.prototype\<close>, and a stored layout
  without any node: \<open>{nodes: {}, other_settings: {hide_unused_interfaces: false,
  hide_disconnected_hosts: false}}\<close>.\<close>

definition shadowed_state :: state where
  "shadowed_state =
     \<lparr>nodes =
        [\<lparr>name = ''toString'', ntype = ''host'', pos_x = Num 10, pos_y = Num 20,
          fx = Num 10, fy = Num 20, old_fx = Undefined, old_fy = Undefined\<rparr>],
      links = [],
      circles = [\<lparr>cid = ''node-host-toString'', downlight = True, invisible = False\<rparr>],
      hide_unused_interfaces = False, hide_disconnected_hosts = False,
      layout_name_input = [], layout_name = [], savedLayouts = [], effects = []\<rparr>"

definition empty_layout :: layout where
  "empty_layout =
     \<lparr>l_nodes = \<lparr>own = Map.empty, proto = None\<rparr>,
      o_hide_unused_interfaces = False, o_hide_disconnected_hosts = False\<rparr>"

text \<open>A switch with one interface whose name holds a dot and which has no link.\<close>

definition dot_state :: state where
  "dot_state =
     \<lparr>nodes =
        [\<lparr>name = ''sw1'', ntype = ''switch'', pos_x = Num 100, pos_y = Num 100,
          fx = Undefined, fy = Undefined, old_fx = Undefined, old_fy = Undefined\<rparr>,
         \<lparr>name = ''sw1.eth1'', ntype = ''interface'', pos_x = Num 130, pos_y = Num 100,
          fx = Undefined, fy = Undefined, old_fx = Undefined, old_fy = Undefined\<rparr>],
      links = [\<lparr>ltype = ''interface'', source = 0, target = 1\<rparr>],
      circles =
        [\<lparr>cid = ''node-switch-sw1'', downlight = False, invisible = False\<rparr>,
         \<lparr>cid = ''node-interface-sw1.eth1'', downlight = False, invisible = False\<rparr>],
      hide_unused_interfaces = False, hide_disconnected_hosts = False,
      layout_name_input = [], layout_name = [], savedLayouts = [], effects = []\<rparr>"

text \<open>A switch with two interfaces without links, named \<open>a:b\<close> and \<open>a__b\<close>.\<close>

definition clash_state :: state where
  "clash_state =
     \<lparr>nodes =
        [\<lparr>name = ''s'', ntype = ''switch'', pos_x = Num 100, pos_y = Num 100,
          fx = Undefined, fy = Undefined, old_fx = Undefined, old_fy = Undefined\<rparr>,
         \<lparr>name = ''a:b'', ntype = ''interface'', pos_x = Num 130, pos_y = Num 100,
          fx = Undefined, fy = Undefined, old_fx = Undefined, old_fy = Undefined\<rparr>,
         \<lparr>name = ''a__b'', ntype = ''interface'', pos_x = Num 100, pos_y = Num 130,
          fx = Undefined, fy = Undefined, old_fx = Undefined, old_fy = Undefined\<rparr>],
      links =
        [\<lparr>ltype = ''interface'', source = 0, target = 1\<rparr>,
         \<lparr>ltype = ''interface'', source = 0, target = 2\<rparr>],
      circles =
        [\<lparr>cid = ''node-switch-s'', downlight = False, invisible = False\<rparr>,
         \<lparr>cid = ''node-interface-a__b'', downlight = False, invisible = False\<rparr>,
         \<lparr>cid = ''node-interface-a__b'', downlight = False, invisible = False\<rparr>],
      hide_unused_interfaces = False, hide_disconnected_hosts = False,
      layout_name_input = [], layout_name = [], savedLayouts = [], effects = []\<rparr>"

text \<open>A host named \<open>__proto__\<close>.\<close>

definition proto_state :: state where
  "proto_state =
     \<lparr>nodes =
        [\<lparr>name = ''__proto__'', ntype = ''host'', pos_x = Num 10, pos_y = Num 20,
          fx = Num 10, fy = Num 20, old_fx = Undefined, old_fy = Undefined\<rparr>],
      links = [],
      circles = [\<lparr>cid = ''node-host-__proto__'', downlight = True, invisible = False\<rparr>],
      hide_unused_interfaces = False, hide_disconnected_hosts = False,
      layout_name_input = [], layout_name = [], savedLayouts = [], effects = []\<rparr>"

section \<open>Properties\<close>

subsection \<open>Escaping\<close>


lemma unfix_name_other:
  "a \<noteq> CHR ''_'' \<Longrightarrow> unfix_name (a # s) = a # unfix_name s"
  by (cases s) auto

lemma unfix_name_single:
  "s = [] \<or> hd s \<noteq> CHR ''_'' \<Longrightarrow> unfix_name (CHR ''_'' # s) = CHR ''_'' # unfix_name s"
  by (cases s) auto

lemma fix_name_hd:
  "n \<noteq> [] \<Longrightarrow> hd n \<noteq> CHR ''_'' \<Longrightarrow> hd n \<noteq> CHR '':'' \<Longrightarrow>
   fix_name n \<noteq> [] \<and> hd (fix_name n) \<noteq> CHR ''_''"
  by (cases n) auto

lemma clash_free_tl: "clash_free (a # s) \<Longrightarrow> clash_free s"
  by (cases s) auto

lemma clash_free_roundtrip: "clash_free n \<Longrightarrow> unfix_name (fix_name n) = n"
proof (induction n)
  case Nil
  show ?case by simp
next
  case (Cons a s)
  have ih: "unfix_name (fix_name s) = s"
    using Cons clash_free_tl by blast
  show ?case
  proof (cases "a = CHR '':''")
    case True
    then show ?thesis using ih by simp
  next
    case colon: False
    show ?thesis
    proof (cases "a = CHR ''_''")
      case False
      then show ?thesis using colon ih by (simp add: unfix_name_other)
    next
      case True
      have "fix_name s = [] \<or> hd (fix_name s) \<noteq> CHR ''_''"
      proof (cases s)
        case Nil
        then show ?thesis by simp
      next
        case (Cons b t)
        then have "hd s \<noteq> CHR ''_''" and "hd s \<noteq> CHR '':''" and "s \<noteq> []"
          using Cons.prems True by auto
        then show ?thesis using fix_name_hd [of s] by simp
      qed
      then show ?thesis
        using True ih by (simp add: unfix_name_single)
    qed
  qed
qed





subsection \<open>Dragging\<close>

lemma distance_interface: "js_lookup distance ''interface'' = Num 30"
  by (simp add: js_lookup_def distance_def size_tbl_def js_add_def js_arith_def)

lemma numbers_Some: "numbers a b = Some (u, v) \<longleftrightarrow> a = Num u \<and> b = Num v"
  by (cases a; cases b) auto

text \<open>Whatever the angle, the projected point is 30 away from the centre.\<close>

lemma radius_positioning_on_ring:
  assumes "radius_positioning (Num cx) (Num cy) (Num px) (Num py) = (new_x, new_y)"
  shows "\<exists>u v. new_x = Num u \<and> new_y = Num v \<and> sqrt ((u - cx)\<^sup>2 + (v - cy)\<^sup>2) = 30"
proof -
  define r where "r = atan2 (py - cy) (px - cx)"
  have x: "new_x = Num (cx + cos r * 30)" and y: "new_y = Num (cy + sin r * 30)"
    using assms by (simp_all add: radius_positioning_def distance_interface js_sub_def js_add_def
        js_mul_def js_atan2_def js_cos_def js_sin_def js_arith_def Let_def r_def)
  define c s where "c = cos r" and "s = sin r"
  have unit: "s\<^sup>2 + c\<^sup>2 = 1" by (simp add: c_def s_def)
  have "(c * 30)\<^sup>2 + (s * 30)\<^sup>2 = 900 * (s\<^sup>2 + c\<^sup>2)"
    by (simp add: power_mult_distrib)
  then have "(c * 30)\<^sup>2 + (s * 30)\<^sup>2 = 30\<^sup>2"
    by (simp only: unit) simp
  then have "sqrt ((cos r * 30)\<^sup>2 + (sin r * 30)\<^sup>2) = 30"
    by (simp only: c_def s_def) simp
  then show ?thesis using x y by simp
qed

text \<open>The projected point lies in the direction of the pointer: it is the centre moved
  by 30 along the unit vector from the centre to the pointer, and straight to the right
  of the centre when the pointer is on the centre.\<close>

lemma sqrt_ratio:
  assumes "u \<noteq> 0"
  shows "sqrt (1 + (v / u)\<^sup>2) = sqrt (u\<^sup>2 + v\<^sup>2) / \<bar>u\<bar>"
proof -
  have "1 + (v / u)\<^sup>2 = (u\<^sup>2 + v\<^sup>2) / u\<^sup>2"
    using assms by (simp add: field_simps power2_eq_square)
  then show ?thesis by (simp add: real_sqrt_divide)
qed

lemma cos_sin_atan2:
  assumes "u \<noteq> 0 \<or> v \<noteq> 0"
  shows "cos (atan2 v u) = u / sqrt (u\<^sup>2 + v\<^sup>2) \<and> sin (atan2 v u) = v / sqrt (u\<^sup>2 + v\<^sup>2)"
proof -
  consider "0 < u" | "u < 0" | "u = 0" "0 < v" | "u = 0" "v < 0"
    using assms by linarith
  then show ?thesis
  proof cases
    case 1
    then show ?thesis
      by (simp add: atan2_def cos_arctan sin_arctan sqrt_ratio)
  next
    case 2
    then show ?thesis
      by (simp add: atan2_def cos_arctan sin_arctan sqrt_ratio)
  next
    case 3
    then show ?thesis by (simp add: atan2_def)
  next
    case 4
    then show ?thesis by (simp add: atan2_def)
  qed
qed


lemma radius_positioning_towards_pointer:
  assumes "px \<noteq> cx \<or> py \<noteq> cy"
  shows "radius_positioning (Num cx) (Num cy) (Num px) (Num py) =
         (Num (cx + (px - cx) / sqrt ((px - cx)\<^sup>2 + (py - cy)\<^sup>2) * 30),
          Num (cy + (py - cy) / sqrt ((px - cx)\<^sup>2 + (py - cy)\<^sup>2) * 30))"
proof -
  have "px - cx \<noteq> 0 \<or> py - cy \<noteq> 0" using assms by simp
  then show ?thesis
    using cos_sin_atan2 [of "px - cx" "py - cy"]
    by (simp add: radius_positioning_def distance_interface js_sub_def js_add_def
        js_mul_def js_atan2_def js_cos_def js_sin_def js_arith_def Let_def)
qed

lemma radius_positioning_at_centre:
  "radius_positioning (Num cx) (Num cy) (Num cx) (Num cy) = (Num (cx + 30), Num cy)"
  by (simp add: radius_positioning_def distance_interface js_sub_def js_add_def
      js_mul_def js_atan2_def js_cos_def js_sin_def js_arith_def Let_def atan2_def)

lemma current_position_args:
  assumes "current_position n = Some (cx, cy)"
  shows "(if eq_undefined (fx n) then pos_x n else fx n) = Num cx"
    and "(if eq_undefined (fx n) then pos_y n else fy n) = Num cy"
  using assms by (auto simp: current_position_def numbers_Some split: if_splits)

text \<open>
  Claim C1. Let \<open>d\<close> be an interface whose owner \<open>ow\<close> is found and is a switch with a
  numeric current position \<open>(cx, cy)\<close> (its pin when pinned, else \<open>(x, y)\<close>). For every
  pointer position \<open>(ex, ey)\<close> the drag handler returns, leaves the owner where it is, and
  pins \<open>d\<close> at a point whose Euclidean distance to \<open>(cx, cy)\<close> is
  \<open>distance['interface']\<close>. Numbers are reals here, so the distance is exact.
\<close>

theorem dragged_interface_on_ring:
  assumes "d < length (nodes st)"
    and "ntype (nodes st ! d) = ''interface''"
    and "get_interface_owner st d = Some ow"
    and "ntype (nodes st ! ow) = ''switch''"
    and "current_position (nodes st ! ow) = Some (cx, cy)"
  shows "\<exists>st' u v. dragged st d ex ey = Inr st' \<and>
           pin (nodes st' ! d) = Some (u, v) \<and>
           current_position (nodes st' ! ow) = Some (cx, cy) \<and>
           Num (sqrt ((u - cx)\<^sup>2 + (v - cy)\<^sup>2)) = js_lookup distance ''interface''"
proof -
  have neq: "ow \<noteq> d" using assms(2,4) by auto
  obtain new_x new_y where
    rp: "radius_positioning (Num cx) (Num cy) (Num ex) (Num ey) = (new_x, new_y)"
    by fastforce
  from radius_positioning_on_ring [OF rp] obtain u v where
    uv: "new_x = Num u" "new_y = Num v" "sqrt ((u - cx)\<^sup>2 + (v - cy)\<^sup>2) = 30"
    by blast
  define st' where
    "st' = update_node d (\<lambda>n. n\<lparr>fx := new_x, fy := new_y\<rparr>) st"
  have run: "dragged st d ex ey = Inr st'"
    using assms(2,3) current_position_args [OF assms(5)] rp
    by (simp add: dragged_def Let_def st'_def)
  have "pin (nodes st' ! d) = Some (u, v)"
    using assms(1) uv by (simp add: st'_def update_node_def pin_def)
  moreover have "nodes st' ! ow = nodes st ! ow"
    using neq by (simp add: st'_def update_node_def)
  ultimately show ?thesis
    using run uv(3) assms(5) by (simp add: distance_interface)
qed

theorem dragged_interface_on_ring_witness:
  "1 < length (nodes demo_state) \<and>
   ntype (nodes demo_state ! 1) = ''interface'' \<and>
   get_interface_owner demo_state 1 = Some 0 \<and>
   ntype (nodes demo_state ! 0) = ''switch'' \<and>
   current_position (nodes demo_state ! 0) = Some (100, 100) \<and>
   (\<exists>st' u v. dragged demo_state 1 150 140 = Inr st' \<and>
      pin (nodes st' ! 1) = Some (u, v) \<and>
      current_position (nodes st' ! 0) = Some (100, 100) \<and>
      Num (sqrt ((u - 100)\<^sup>2 + (v - 100)\<^sup>2)) = js_lookup distance ''interface'')"
proof -
  have h: "1 < length (nodes demo_state)"
    "ntype (nodes demo_state ! 1) = ''interface''"
    "get_interface_owner demo_state 1 = Some 0"
    "ntype (nodes demo_state ! 0) = ''switch''"
    "current_position (nodes demo_state ! 0) = Some (100, 100)"
    by (simp_all add: demo_state_def get_interface_owner_def current_position_def
        eq_undefined_def)
  show ?thesis
    using h dragged_interface_on_ring [OF h, of 150 140] by simp
qed

text \<open>No owner is found exactly when no link of type \<open>interface\<close> targets a node of that
  name, and every drag of such an interface throws.\<close>

lemma last_match_None:
  "fold (\<lambda>l s. if P l then Some (g l) else s) ls acc = None \<longleftrightarrow>
   acc = None \<and> \<not> list_ex P ls"
  by (induction ls arbitrary: acc) auto

lemma get_interface_owner_None:
  "get_interface_owner st d = None \<longleftrightarrow>
   \<not> list_ex (\<lambda>l. ltype l = ''interface'' \<and> name (nodes st ! target l) = name (nodes st ! d))
        (links st)"
  by (simp add: get_interface_owner_def last_match_None)

lemma dragged_ownerless_interface:
  assumes "ntype (nodes st ! d) = ''interface''" and "get_interface_owner st d = None"
  shows "dragged st d ex ey = Inl TypeError"
  using assms by (simp add: dragged_def)

text \<open>
  Claim C2 (the code departs from it). On an interface that no \<open>interface\<close> link targets,
  \<open>get_interface_owner\<close> returns \<open>null\<close> and the handler throws on \<open>owner.fx\<close>: the node
  is not pinned to the pointer.
\<close>

theorem dragged_ownerless_interface_throws:
  "get_interface_owner ownerless_state 0 = None \<and>
   dragged ownerless_state 0 50 60 = Inl TypeError"
  by (simp add: ownerless_state_def get_interface_owner_def dragged_def)

lemma update_node_length [simp]: "length (nodes (update_node i f st)) = length (nodes st)"
  by (simp add: update_node_def)

lemma update_node_links [simp]: "links (update_node i f st) = links st"
  by (simp add: update_node_def)

lemma fold_update_node_nth:
  assumes "distinct js" and "k < length (nodes st)"
  shows "nodes (fold (\<lambda>i. update_node i f) js st) ! k =
         (if k \<in> set js then f (nodes st ! k) else nodes st ! k)"
  using assms
proof (induction js arbitrary: st)
  case Nil
  show ?case by simp
next
  case (Cons j js)
  have k: "k < length (nodes (update_node j f st))" using Cons.prems by simp
  have d: "distinct js" and nj: "j \<notin> set js" using Cons.prems by simp_all
  show ?case
  proof (cases "k = j")
    case True
    then show ?thesis
      using Cons.IH [OF d k] nj Cons.prems(2) by (simp add: update_node_def)
  next
    case False
    then show ?thesis
      using Cons.IH [OF d k] by (simp add: update_node_def)
  qed
qed

lemma get_switch_interfaces_update:
  assumes "d < length (nodes st)" and "\<And>n. name (f n) = name n"
  shows "get_switch_interfaces (update_node d f st) k = get_switch_interfaces st k"
proof -
  have "name (nodes (update_node d f st) ! j) = name (nodes st ! j)" for j
    using assms by (cases "j = d") (simp_all add: update_node_def)
  then show ?thesis by (simp add: get_switch_interfaces_def)
qed

lemma get_switch_interfaces_bound:
  "links_resolved st \<Longrightarrow> i \<in> set (get_switch_interfaces st d) \<Longrightarrow> i < length (nodes st)"
  by (auto simp: links_resolved_def get_switch_interfaces_def list_all_iff)

lemma interface_link_target_owned:
  "l \<in> set (links st) \<Longrightarrow> ltype l = ''interface'' \<Longrightarrow> source l = d \<Longrightarrow>
   target l \<in> set (get_switch_interfaces st d)"
  by (auto simp: get_switch_interfaces_def)

lemma drag_interface_pin:
  assumes "current_position n = Some (a, b)"
  shows "pin (drag_interface (Num dx) (Num dy) n) = Some (fl (a + dx), fl (b + dy))"
  using assms
  by (auto simp: current_position_def drag_interface_def pin_def numbers_Some Let_def
      js_add_fl_def js_arith_def split: if_splits)

text \<open>What the switch branch computes: the switch is pinned at the pointer, one rounded
  delta is taken, and each interface ends at the rounded sum of its position and that
  delta.\<close>

lemma dragged_switch_pins:
  assumes "d < length (nodes st)"
    and "ntype (nodes st ! d) = ''switch''"
    and "pin (nodes st ! d) = Some (px, py)"
    and "links_resolved st"
    and "distinct (get_switch_interfaces st d)"
    and "\<forall>i \<in> set (get_switch_interfaces st d). ntype (nodes st ! i) = ''interface''"
  shows "\<exists>st'. dragged st d ex ey = Inr st' \<and>
           pin (nodes st' ! d) = Some (ex, ey) \<and>
           (\<forall>i \<in> set (get_switch_interfaces st d). \<forall>a b.
              current_position (nodes st ! i) = Some (a, b) \<longrightarrow>
              pin (nodes st' ! i) = Some (fl (a + fl (ex - px)), fl (b + fl (ey - py))))"
proof -
  define js where "js = get_switch_interfaces st d"
  define st1 where
    "st1 = update_node d (\<lambda>n. n\<lparr>old_fx := fx n, old_fy := fy n, fx := Num ex, fy := Num ey\<rparr>) st"
  define st' where
    "st' = fold (\<lambda>i. update_node i (drag_interface (Num (fl (ex - px))) (Num (fl (ey - py)))))
             js st1"
  have pinned: "fx (nodes st ! d) = Num px" "fy (nodes st ! d) = Num py"
    using assms(3) by (simp_all add: pin_def numbers_Some)
  have same: "get_switch_interfaces st1 d = js"
    unfolding st1_def js_def by (rule get_switch_interfaces_update [OF assms(1)]) simp
  have run: "dragged st d ex ey = Inr st'"
    using assms(1,2) pinned same
    by (simp add: dragged_def Let_def st1_def [symmetric])
       (simp add: st1_def update_node_def js_sub_fl_def js_arith_def st'_def)
  have notin: "d \<notin> set js" using assms(2,6) by (auto simp: js_def)
  have len1: "length (nodes st1) = length (nodes st)" by (simp add: st1_def)
  have nth: "nodes st' ! k =
      (if k \<in> set js
       then drag_interface (Num (fl (ex - px))) (Num (fl (ey - py))) (nodes st1 ! k)
       else nodes st1 ! k)" if "k < length (nodes st)" for k
    unfolding st'_def using assms(5) that len1
    by (simp add: fold_update_node_nth js_def)
  have at_d: "pin (nodes st' ! d) = Some (ex, ey)"
    using nth [OF assms(1)] notin assms(1) by (simp add: st1_def update_node_def pin_def)
  have moved: "pin (nodes st' ! i) = Some (fl (a + fl (ex - px)), fl (b + fl (ey - py)))"
    if "i \<in> set js" and "current_position (nodes st ! i) = Some (a, b)" for i a b
  proof -
    have "i < length (nodes st)"
      using that(1) assms(4) by (auto simp: js_def dest: get_switch_interfaces_bound)
    moreover have "i \<noteq> d" using that(1) notin by auto
    then have "nodes st1 ! i = nodes st ! i"
      by (simp add: st1_def update_node_def)
    ultimately show ?thesis
      using nth [of i] that by (simp add: drag_interface_pin)
  qed
  show ?thesis
    using run at_d moved unfolding js_def by blast
qed

text \<open>Rounding moves a number by at most half a unit in its last place, which for a
  number of at least \<open>2^-1022\<close> in magnitude is at most \<open>2^-53\<close> of it.\<close>

lemma round_half_even_error: "\<bar>of_int (round_half_even y) - y\<bar> \<le> 1 / 2"
proof -
  have "of_int \<lfloor>y\<rfloor> \<le> y" "y < of_int \<lfloor>y\<rfloor> + 1" by linarith+
  then show ?thesis by (auto simp: round_half_even_def)
qed

lemma fl_error: "\<bar>fl x - x\<bar> \<le> half_ulp x"
proof (cases "x = 0")
  case True
  then show ?thesis by (simp add: fl_def half_ulp_def)
next
  case False
  define p :: real where "p = 2 powr of_int (double_exponent x)"
  have p: "0 < p" by (simp add: p_def)
  have "fl x - x = (of_int (round_half_even (x / p)) - x / p) * p"
    using False p by (simp add: fl_def p_def algebra_simps)
  then have "\<bar>fl x - x\<bar> = \<bar>of_int (round_half_even (x / p)) - x / p\<bar> * p"
    using p by (simp add: abs_mult)
  also have "\<dots> \<le> 1 / 2 * p"
    using round_half_even_error [of "x / p"] p by (intro mult_right_mono) simp_all
  finally show ?thesis by (simp add: half_ulp_def p_def)
qed

lemma half_ulp_relative:
  assumes "2 powr (- 1022) \<le> \<bar>x\<bar>"
  shows "half_ulp x \<le> \<bar>x\<bar> * 2 powr (- 53)"
proof -
  have pos: "0 < \<bar>x\<bar>" using assms by (smt (verit) powr_gt_zero)
  have "of_int (- 1022) \<le> log 2 \<bar>x\<bar>" using assms pos by (simp add: le_log_iff)
  then have "(- 1022 :: int) \<le> \<lfloor>log 2 \<bar>x\<bar>\<rfloor>" by (simp only: le_floor_iff)
  then have e: "double_exponent x = \<lfloor>log 2 \<bar>x\<bar>\<rfloor> - 52"
    unfolding double_exponent_def by linarith
  have "2 powr of_int \<lfloor>log 2 \<bar>x\<bar>\<rfloor> \<le> 2 powr log 2 \<bar>x\<bar>"
    by (intro powr_mono) simp_all
  then have le: "2 powr of_int \<lfloor>log 2 \<bar>x\<bar>\<rfloor> \<le> \<bar>x\<bar>" using pos by simp
  have "half_ulp x = 2 powr of_int \<lfloor>log 2 \<bar>x\<bar>\<rfloor> * 2 powr (- 53)"
    by (simp add: half_ulp_def e powr_diff powr_minus field_simps)
  then show ?thesis using le by (simp add: mult_right_mono)
qed

text \<open>
  Claim C3 (as amended). Let \<open>d\<close> be a switch pinned at \<open>(px, py)\<close> in a graph whose links
  are resolved, whose \<open>interface\<close> links from \<open>d\<close> target interface nodes, each once. A
  drag to \<open>(ex, ey)\<close> pins \<open>d\<close> there. The delta is computed once, as the rounded
  difference \<open>fl (ex - px)\<close>, and every interface of \<open>d\<close> ends pinned at the rounded sum of
  its position before the drag (its pin, or \<open>(x, y)\<close> when it was not pinned) and that
  delta. This is the translation by \<open>(ex - px, ey - py)\<close> up to the two roundings, each of
  at most half a unit in the last place; the offset between two interfaces is kept up to
  the rounding of their two sums. Neither is exact.
\<close>

theorem dragged_switch_rounded:
  assumes "d < length (nodes st)"
    and "ntype (nodes st ! d) = ''switch''"
    and "pin (nodes st ! d) = Some (px, py)"
    and "links_resolved st"
    and "distinct (get_switch_interfaces st d)"
    and "\<forall>i \<in> set (get_switch_interfaces st d). ntype (nodes st ! i) = ''interface''"
    and "no_overflow (ex - px)" and "no_overflow (ey - py)"
  shows "\<exists>st'. dragged st d ex ey = Inr st' \<and>
           pin (nodes st' ! d) = Some (ex, ey) \<and>
           (\<forall>i \<in> set (get_switch_interfaces st d). \<forall>a b.
              current_position (nodes st ! i) = Some (a, b) \<and>
              no_overflow (a + fl (ex - px)) \<and> no_overflow (b + fl (ey - py)) \<longrightarrow>
              (\<exists>u v. pin (nodes st' ! i) = Some (u, v) \<and>
                 u = fl (a + fl (ex - px)) \<and> v = fl (b + fl (ey - py)) \<and>
                 \<bar>u - (a + (ex - px))\<bar> \<le> half_ulp (ex - px) + half_ulp (a + fl (ex - px)) \<and>
                 \<bar>v - (b + (ey - py))\<bar> \<le> half_ulp (ey - py) + half_ulp (b + fl (ey - py)))) \<and>
           (\<forall>i \<in> set (get_switch_interfaces st d). \<forall>j \<in> set (get_switch_interfaces st d).
              \<forall>a b a' b'.
                current_position (nodes st ! i) = Some (a, b) \<and>
                current_position (nodes st ! j) = Some (a', b') \<and>
                no_overflow (a + fl (ex - px)) \<and> no_overflow (b + fl (ey - py)) \<and>
                no_overflow (a' + fl (ex - px)) \<and> no_overflow (b' + fl (ey - py)) \<longrightarrow>
                (\<exists>u v u' v'. pin (nodes st' ! i) = Some (u, v) \<and>
                   pin (nodes st' ! j) = Some (u', v') \<and>
                   \<bar>(u - u') - (a - a')\<bar> \<le>
                     half_ulp (a + fl (ex - px)) + half_ulp (a' + fl (ex - px)) \<and>
                   \<bar>(v - v') - (b - b')\<bar> \<le>
                     half_ulp (b + fl (ey - py)) + half_ulp (b' + fl (ey - py))))"
proof -
  obtain st' where run: "dragged st d ex ey = Inr st'"
    and at_d: "pin (nodes st' ! d) = Some (ex, ey)"
    and moved: "\<And>i a b. i \<in> set (get_switch_interfaces st d) \<Longrightarrow>
        current_position (nodes st ! i) = Some (a, b) \<Longrightarrow>
        pin (nodes st' ! i) = Some (fl (a + fl (ex - px)), fl (b + fl (ey - py)))"
    using dragged_switch_pins [OF assms(1-6), of ex ey] by blast
  have near: "\<bar>fl (a + fl (e - p)) - (a + (e - p))\<bar> \<le> half_ulp (e - p) + half_ulp (a + fl (e - p))"
    for a e p :: real
    using fl_error [of "e - p"] fl_error [of "a + fl (e - p)"] by linarith
  have offset: "\<bar>(fl (a + q) - fl (a' + q)) - (a - a')\<bar> \<le> half_ulp (a + q) + half_ulp (a' + q)"
    for a a' q :: real
    using fl_error [of "a + q"] fl_error [of "a' + q"] by linarith
  show ?thesis
    using run at_d moved near offset by (intro exI [of _ st']) auto
qed

text \<open>Some roundings, each by the exponent of its argument.\<close>

lemma double_exponent_eval:
  assumes "2 powr of_int k \<le> \<bar>x\<bar>" and "\<bar>x\<bar> < 2 powr of_int (k + 1)" and "- 1022 \<le> k"
  shows "double_exponent x = k - 52"
proof -
  have pos: "0 < \<bar>x\<bar>" using assms(1) by (smt (verit) powr_gt_zero)
  have "of_int k \<le> log 2 \<bar>x\<bar>"
    using assms(1) pos by (simp add: le_log_iff)
  moreover have "log 2 \<bar>x\<bar> < of_int (k + 1)"
    using assms(2) pos by (simp add: log_less_iff)
  ultimately have "\<lfloor>log 2 \<bar>x\<bar>\<rfloor> = k" by linarith
  then show ?thesis using assms(3) by (simp add: double_exponent_def)
qed

lemma fl_eval:
  assumes "2 powr of_int k \<le> \<bar>x\<bar>" and "\<bar>x\<bar> < 2 powr of_int (k + 1)" and "- 1022 \<le> k"
  shows "fl x = of_int (round_half_even (x / 2 powr of_int (k - 52))) * 2 powr of_int (k - 52)"
proof -
  have "x \<noteq> 0" using assms(1) by (smt (verit) powr_gt_zero)
  then show ?thesis using double_exponent_eval [OF assms] by (simp add: fl_def)
qed

lemma fl_zero: "fl 0 = 0"
  by (simp add: fl_def)

lemma fl_41_2: "fl (41 / 2) = 41 / 2"
  by (subst fl_eval [of 4]) (simp_all add: round_half_even_def powr_minus powr_numeral)

lemma fl_301_2: "fl (301 / 2) = 301 / 2"
  by (subst fl_eval [of 7]) (simp_all add: round_half_even_def powr_minus powr_numeral)

lemma fl_241_2: "fl (241 / 2) = 241 / 2"
  by (subst fl_eval [of 6]) (simp_all add: round_half_even_def powr_minus powr_numeral)

lemma fl_minus_10: "fl (- 10) = - 10"
  by (subst fl_eval [of 3]) (simp_all add: round_half_even_def powr_minus powr_numeral)

lemma fl_90: "fl (90) = 90"
  by (subst fl_eval [of 6]) (simp_all add: round_half_even_def powr_minus powr_numeral)

lemma fl_120: "fl (120) = 120"
  by (subst fl_eval [of 6]) (simp_all add: round_half_even_def powr_minus powr_numeral)

lemma fl_100: "fl (100) = 100"
  by (subst fl_eval [of 6]) (simp_all add: round_half_even_def powr_minus powr_numeral)

lemma fl_130: "fl (130) = 130"
  by (subst fl_eval [of 7]) (simp_all add: round_half_even_def powr_minus powr_numeral)

text \<open>The double that the code reads from \<open>120.3\<close>, and the roundings of a drag of the
  small topology to it.\<close>

lemma fl_pointer: "fl (1203 / 10) = 8465359924572979 / 70368744177664"
  by (subst fl_eval [of 6]) (simp_all add: round_half_even_def powr_minus powr_numeral)

lemma fl_delta: "fl (1428485506806579 / 70368744177664) = 1428485506806579 / 70368744177664"
  by (subst fl_eval [of 4]) (simp_all add: round_half_even_def powr_minus powr_numeral)

lemma fl_sum_pinned: "fl (10576422249902899 / 70368744177664) = 2644105562475725 / 17592186044416"
  by (subst fl_eval [of 7]) (simp_all add: round_half_even_def powr_minus powr_numeral)

lemma fl_sum_unpinned: "fl (8465359924572979 / 70368744177664) = 8465359924572979 / 70368744177664"
  by (subst fl_eval [of 6]) (simp_all add: round_half_even_def powr_minus powr_numeral)

lemma no_overflow_small: "\<bar>x\<bar> \<le> 1000000 \<Longrightarrow> no_overflow x"
proof -
  assume "\<bar>x\<bar> \<le> 1000000"
  moreover have "(1000000 :: real) < 2 powr 1024 - 2 powr 970"
    by (simp add: powr_numeral)
  ultimately show ?thesis by (simp add: no_overflow_def)
qed

lemma demo_switch_interfaces: "get_switch_interfaces demo_state 0 = [1, 2]"
  by (simp add: get_switch_interfaces_def demo_state_def)

theorem dragged_switch_rounded_witness:
  "pin (nodes demo_state ! 0) = Some (100, 100) \<and>
   get_switch_interfaces demo_state 0 = [1, 2] \<and>
   current_position (nodes demo_state ! 1) = Some (130, 100) \<and>
   current_position (nodes demo_state ! 2) = Some (100, 130) \<and>
   no_overflow (241 / 2 - 100) \<and> no_overflow (90 - 100) \<and>
   (\<exists>st'. dragged demo_state 0 (241 / 2) 90 = Inr st' \<and>
      pin (nodes st' ! 0) = Some (241 / 2, 90) \<and>
      pin (nodes st' ! 1) = Some (301 / 2, 90) \<and>
      pin (nodes st' ! 2) = Some (241 / 2, 120))"
proof -
  have h: "0 < length (nodes demo_state)"
    "ntype (nodes demo_state ! 0) = ''switch''"
    "pin (nodes demo_state ! 0) = Some (100, 100)"
    "links_resolved demo_state"
    "distinct (get_switch_interfaces demo_state 0)"
    "\<forall>i \<in> set (get_switch_interfaces demo_state 0). ntype (nodes demo_state ! i) = ''interface''"
    by (simp_all add: demo_switch_interfaces)
       (simp_all add: demo_state_def pin_def links_resolved_def)
  have r: "no_overflow (241 / 2 - 100)" "no_overflow (90 - 100)"
    by (simp_all add: no_overflow_small)
  have p: "current_position (nodes demo_state ! 1) = Some (130, 100)"
    "current_position (nodes demo_state ! 2) = Some (100, 130)"
    by (simp_all add: demo_state_def current_position_def eq_undefined_def)
  have q: "no_overflow (130 + fl (241 / 2 - 100))" "no_overflow (100 + fl (90 - 100))"
    "no_overflow (100 + fl (241 / 2 - 100))" "no_overflow (130 + fl (90 - 100))"
    by (simp_all add: fl_41_2 fl_minus_10 no_overflow_small)
  from dragged_switch_rounded [OF h r] obtain st' where
    run: "dragged demo_state 0 (241 / 2) 90 = Inr st'"
    and at: "pin (nodes st' ! 0) = Some (241 / 2, 90)"
    and moved: "\<forall>i \<in> set (get_switch_interfaces demo_state 0). \<forall>a b.
        current_position (nodes demo_state ! i) = Some (a, b) \<and>
        no_overflow (a + fl (241 / 2 - 100)) \<and> no_overflow (b + fl (90 - 100)) \<longrightarrow>
        (\<exists>u v. pin (nodes st' ! i) = Some (u, v) \<and>
           u = fl (a + fl (241 / 2 - 100)) \<and> v = fl (b + fl (90 - 100)) \<and>
           \<bar>u - (a + (241 / 2 - 100))\<bar> \<le>
             half_ulp (241 / 2 - 100) + half_ulp (a + fl (241 / 2 - 100)) \<and>
           \<bar>v - (b + (90 - 100))\<bar> \<le> half_ulp (90 - 100) + half_ulp (b + fl (90 - 100)))"
    by blast
  have "pin (nodes st' ! 1) = Some (fl (130 + fl (241 / 2 - 100)), fl (100 + fl (90 - 100)))"
    using moved p(1) q by (fastforce simp: demo_switch_interfaces)
  then have one: "pin (nodes st' ! 1) = Some (301 / 2, 90)"
    by (simp add: fl_41_2 fl_minus_10 fl_301_2 fl_90)
  have "pin (nodes st' ! 2) = Some (fl (100 + fl (241 / 2 - 100)), fl (130 + fl (90 - 100)))"
    using moved p(2) q by (fastforce simp: demo_switch_interfaces)
  then have two: "pin (nodes st' ! 2) = Some (241 / 2, 120)"
    by (simp add: fl_41_2 fl_minus_10 fl_241_2 fl_120)
  show ?thesis
    using h(3) p r run at one two by (simp add: demo_switch_interfaces)
qed

text \<open>
  The claim as stated fails on the small topology when the switch, pinned at
  \<open>(100, 100)\<close>, is dragged to \<open>(120.3, 100)\<close>. The switch moves by the double
  \<open>20.299999999999997\<close>; the pinned interface goes from \<open>130\<close> to the double \<open>150.3\<close>,
  which is more than that, and ends further than \<open>30\<close> from the other interface.
\<close>

theorem dragged_switch_exact_counterexample:
  "dragged demo_state 0 (8465359924572979 / 70368744177664) 100 =
     Inr (demo_state
          \<lparr>nodes :=
             [\<lparr>name = ''00:01'', ntype = ''switch'', pos_x = Num 100, pos_y = Num 100,
               fx = Num (8465359924572979 / 70368744177664), fy = Num 100,
               old_fx = Num 100, old_fy = Num 100\<rparr>,
              \<lparr>name = ''00:01:1'', ntype = ''interface'', pos_x = Num 130, pos_y = Num 100,
               fx = Num (2644105562475725 / 17592186044416), fy = Num 100,
               old_fx = Undefined, old_fy = Undefined\<rparr>,
              \<lparr>name = ''00:01:2'', ntype = ''interface'', pos_x = Num 100, pos_y = Num 130,
               fx = Num (8465359924572979 / 70368744177664), fy = Num 130,
               old_fx = Undefined, old_fy = Undefined\<rparr>,
              \<lparr>name = ''h1'', ntype = ''host'', pos_x = Num 200, pos_y = Num 100,
               fx = Undefined, fy = Undefined, old_fx = Undefined, old_fy = Undefined\<rparr>]\<rparr>) \<and>
   (2644105562475725 / 17592186044416 - 130 :: real) \<noteq>
     8465359924572979 / 70368744177664 - 100 \<and>
   (2644105562475725 / 17592186044416 - 8465359924572979 / 70368744177664 :: real) \<noteq>
     130 - 100"
  by (simp add: dragged_def demo_state_def get_switch_interfaces_def update_node_def
      drag_interface_def js_sub_fl_def js_add_fl_def js_arith_def eq_undefined_def Let_def
      fl_zero fl_100 fl_130 fl_delta fl_sum_pinned fl_sum_unpinned)

subsection \<open>Releasing\<close>

text \<open>
  Claim C10. A double click on an interface node clears that node's \<open>fx\<close> and \<open>fy\<close> and
  changes nothing else: every other node (the owner switch, the sibling interfaces) and
  the rest of the state are as before, and the node is not put back on the ring.
\<close>

theorem release_interface_only:
  assumes "d < length (nodes st)" and "ntype (nodes st ! d) = ''interface''"
  shows "release_node st d =
           st\<lparr>nodes := (nodes st)[d := (nodes st ! d)\<lparr>fx := Null, fy := Null\<rparr>]\<rparr> \<and>
         (\<forall>j. j \<noteq> d \<longrightarrow> nodes (release_node st d) ! j = nodes st ! j)"
  using assms by (simp add: release_node_def update_node_def Let_def)

theorem release_interface_only_witness:
  "1 < length (nodes demo_state) \<and> ntype (nodes demo_state ! 1) = ''interface'' \<and>
   release_node demo_state 1 =
     demo_state\<lparr>nodes := (nodes demo_state)[1 := (nodes demo_state ! 1)\<lparr>fx := Null, fy := Null\<rparr>]\<rparr> \<and>
   nodes (release_node demo_state 1) ! 0 = nodes demo_state ! 0 \<and>
   nodes (release_node demo_state 1) ! 2 = nodes demo_state ! 2"
proof -
  have h: "1 < length (nodes demo_state)" "ntype (nodes demo_state ! 1) = ''interface''"
    by (simp_all add: demo_state_def)
  show ?thesis
    using h release_interface_only [OF h] by simp
qed

subsection \<open>Selecting circles\<close>

lemma first_match_Some: "first_match P cs = Some m \<Longrightarrow> m < length cs \<and> P (cs ! m)"
proof (induction cs arbitrary: m)
  case Nil
  then show ?case by simp
next
  case (Cons c cs)
  then show ?case by (cases "P c") auto
qed

lemma first_match_None: "first_match P cs = None \<longleftrightarrow> \<not> list_ex P cs"
  by (induction cs) auto

lemma first_match_nth:
  "distinct (map f cs) \<Longrightarrow> k < length cs \<Longrightarrow> first_match (\<lambda>c. f c = f (cs ! k)) cs = Some k"
proof (induction cs arbitrary: k)
  case Nil
  then show ?case by simp
next
  case (Cons c cs)
  show ?case
  proof (cases k)
    case 0
    then show ?thesis by simp
  next
    case (Suc m)
    then have "m < length cs" using Cons.prems by simp
    then have "f (cs ! m) \<in> f ` set cs" by (intro imageI nth_mem)
    moreover have "f c \<notin> f ` set cs" using Cons.prems by simp
    ultimately have "f (cs ! m) \<noteq> f c" by metis
    then show ?thesis using Suc Cons \<open>m < length cs\<close> by simp
  qed
qed

lemma name_char_not_dot: "name_char c \<Longrightarrow> c \<noteq> CHR ''.''"
  by (auto simp: name_char_def name_start_def)

lemma split_dots_plain: "list_all name_char s \<Longrightarrow> split_dots s = [s]"
  by (induction s) (auto dest: name_char_not_dot)

lemma css_ident_name_chars: "css_ident s \<Longrightarrow> list_all name_char s"
  by (cases s rule: css_ident.cases) (auto simp: name_char_def)

text \<open>On an identifier \<open>d3_select\<close> is the selection by id.\<close>

lemma d3_select_plain:
  "css_ident i \<Longrightarrow> d3_select i cs = first_match (\<lambda>c. cid c = i) cs"
  by (simp add: d3_select_def split_dots_plain css_ident_name_chars)

lemma d3_select_nth:
  "distinct (map cid cs) \<Longrightarrow> k < length cs \<Longrightarrow> css_ident (cid (cs ! k)) \<Longrightarrow>
   d3_select (cid (cs ! k)) cs = Some k"
  by (simp add: d3_select_plain first_match_nth)

lemma ids_plain_nth:
  "circles_drawn st \<Longrightarrow> ids_plain st \<Longrightarrow> idx < length (nodes st) \<Longrightarrow>
   css_ident (node_id (nodes st ! idx))"
proof -
  assume a: "circles_drawn st" "ids_plain st" "idx < length (nodes st)"
  have "node_id (nodes st ! idx) \<in> set (map node_id (nodes st))" using a(3) by simp
  then have "node_id (nodes st ! idx) \<in> set (map cid (circles st))"
    using a(1) by (simp add: circles_drawn_def)
  then show ?thesis using a(2) by (auto simp: ids_plain_def list_all_iff)
qed

lemma d3_select_drawn:
  assumes "circles_drawn st" and "ids_plain st" and "idx < length (nodes st)"
  shows "\<exists>m. d3_select (node_id (nodes st ! idx)) (circles st) = Some m \<and> m < length (circles st)"
proof -
  have "node_id (nodes st ! idx) \<in> set (map node_id (nodes st))"
    using assms(3) by simp
  then have "node_id (nodes st ! idx) \<in> cid ` set (circles st)"
    using assms(1) by (metis circles_drawn_def set_map)
  then have "list_ex (\<lambda>c. cid c = node_id (nodes st ! idx)) (circles st)"
    by (auto simp: list_ex_iff)
  then obtain m where
    "first_match (\<lambda>c. cid c = node_id (nodes st ! idx)) (circles st) = Some m"
    using first_match_None [of "\<lambda>c. cid c = node_id (nodes st ! idx)" "circles st"] by fastforce
  then show ?thesis
    using first_match_Some ids_plain_nth [OF assms] by (fastforce simp: d3_select_plain)
qed

subsection \<open>Circle ids\<close>

text \<open>Nodes of the three types with pairwise different names, none of which holds an
  underscore followed by an underscore or a colon, are drawn under pairwise different
  ids.\<close>

lemma fix_name_inj:
  assumes "clash_free a" and "clash_free b" and "fix_name a = fix_name b"
  shows "a = b"
proof -
  have "unfix_name (fix_name a) = unfix_name (fix_name b)" using assms(3) by simp
  then show ?thesis using assms(1,2) by (simp add: clash_free_roundtrip)
qed

lemma node_id_inj:
  assumes "known_type (ntype m)" and "known_type (ntype n)"
    and "clash_free (name m)" and "clash_free (name n)"
    and "node_id m = node_id n"
  shows "ntype m = ntype n \<and> name m = name n"
proof -
  have "ntype m = ntype n \<and> fix_name (name m) = fix_name (name n)"
    using assms(1,2,5) by (auto simp: known_type_def node_id_def)
  then show ?thesis using fix_name_inj [OF assms(3,4)] by simp
qed

lemma circles_distinct:
  assumes "circles_drawn st" and "distinct (map name (nodes st))"
    and "\<forall>n \<in> set (nodes st). known_type (ntype n) \<and> clash_free (name n)"
  shows "distinct (map cid (circles st))"
proof -
  have names: "distinct (nodes st)" "inj_on name (set (nodes st))"
    using assms(2) by (simp_all add: distinct_map)
  have "inj_on node_id (set (nodes st))"
  proof (rule inj_onI)
    fix m n assume mn: "m \<in> set (nodes st)" "n \<in> set (nodes st)" "node_id m = node_id n"
    then have "name m = name n" using assms(3) node_id_inj by blast
    then show "m = n" using mn(1,2) names(2) by (auto simp: inj_on_def)
  qed
  then have "distinct (map node_id (nodes st))" using names(1) by (simp add: distinct_map)
  then show ?thesis using assms(1) by (simp add: circles_drawn_def)
qed

text \<open>The id of a node of one of the three types is an identifier when its name is made
  of name characters and colons.\<close>

lemma fix_name_name_chars:
  "list_all (\<lambda>c. name_char c \<or> c = CHR '':'') n \<Longrightarrow> list_all name_char (fix_name n)"
  by (induction n) (auto simp: name_char_def name_start_def)

lemma node_id_plain:
  assumes "known_type (ntype n)" and "list_all (\<lambda>c. name_char c \<or> c = CHR '':'') (name n)"
  shows "css_ident (node_id n)"
  using assms(1) fix_name_name_chars [OF assms(2)]
  by (auto simp: known_type_def node_id_def name_char_def name_start_def)

subsection \<open>Hiding unused interfaces\<close>

lemma unused_loop:
  "fold (\<lambda>l unused. if ltype l = ''link'' then False else unused) ls b =
   (b \<and> \<not> list_ex (\<lambda>l. ltype l = ''link'') ls)"
  by (induction ls arbitrary: b) auto

lemma unused_test:
  "ntype (nodes s ! i) = ''interface'' \<Longrightarrow>
   fold (\<lambda>l unused. if ltype l = ''link'' then False else unused) (get_node_links s i) True
   = unused_interface s i"
  by (auto simp: unused_loop unused_interface_def get_node_links_def list_ex_iff)

lemma unused_step_effect:
  assumes "map cid (circles s) = map node_id (nodes s)" and "distinct (map cid (circles s))"
    and "i < length (nodes s)" and "ntype (nodes s ! i) = ''interface''"
    and "list_all css_ident (map cid (circles s))"
  shows "unused_step h i s =
         (if unused_interface s i
          then s\<lparr>circles := (circles s)[i := (circles s ! i)\<lparr>invisible := h\<rparr>]\<rparr> else s)"
proof -
  have len: "length (circles s) = length (nodes s)"
    using assms(1) by (metis length_map)
  have "cid (circles s ! i) = node_id (nodes s ! i)"
    using assms(1,3) len by (metis nth_map)
  then have "''node-interface-'' @ fix_name (name (nodes s ! i)) = cid (circles s ! i)"
    using assms(4) by (simp add: node_id_def)
  moreover have "css_ident (cid (circles s ! i))"
    using assms(3,5) len by (simp add: list_all_length)
  ultimately have
    "d3_select (''node-interface-'' @ fix_name (name (nodes s ! i))) (circles s) = Some i"
    using d3_select_nth [OF assms(2), of i] assms(3) len by simp
  then show ?thesis
    using unused_test [OF assms(4)]
    by (simp add: unused_step_def classed_invisible_def)
qed


lemma mark_length [simp]: "length (mark h U cs) = length cs"
  by (simp add: mark_def)

lemma mark_nth: "k < length cs \<Longrightarrow> mark h U cs ! k = (if U k then (cs ! k)\<lparr>invisible := h\<rparr> else cs ! k)"
  by (simp add: mark_def)

lemma mark_cid: "map cid (mark h U cs) = map cid cs"
  by (rule nth_equalityI) (simp_all add: mark_nth)

lemma mark_one: "i < length cs \<Longrightarrow> cs[i := (cs ! i)\<lparr>invisible := h\<rparr>] = mark h (\<lambda>k. k = i) cs"
  by (rule nth_equalityI) (auto simp: mark_nth nth_list_update)

lemma mark_none: "mark h (\<lambda>k. False) cs = cs"
  by (rule nth_equalityI) (simp_all add: mark_nth)

lemma mark_mark: "mark h U (mark h V cs) = mark h (\<lambda>k. U k \<or> V k) cs"
  by (rule nth_equalityI) (auto simp: mark_nth)

lemma unused_interface_circles [simp]:
  "unused_interface (s\<lparr>circles := cs\<rparr>) k = unused_interface s k"
  by (simp add: unused_interface_def)

lemma fold_unused_step:
  assumes "map cid (circles s) = map node_id (nodes s)" and "distinct (map cid (circles s))"
    and "\<forall>j \<in> set js. j < length (nodes s) \<and> ntype (nodes s ! j) = ''interface''"
    and "list_all css_ident (map cid (circles s))"
  shows "fold (unused_step h) js s =
         s\<lparr>circles := mark h (\<lambda>k. k \<in> set js \<and> unused_interface s k) (circles s)\<rparr>"
  using assms
proof (induction js arbitrary: s)
  case Nil
  show ?case by (simp add: mark_none)
next
  case (Cons j js)
  have j: "j < length (nodes s)" "ntype (nodes s ! j) = ''interface''"
    using Cons.prems(3) by simp_all
  have len: "length (circles s) = length (nodes s)"
    using Cons.prems(1) by (metis length_map)
  define V where "V = (\<lambda>k. k = j \<and> unused_interface s j)"
  have step: "unused_step h j s = s\<lparr>circles := mark h V (circles s)\<rparr>"
  proof (cases "unused_interface s j")
    case True
    then show ?thesis
      using unused_step_effect [OF Cons.prems(1,2) j Cons.prems(4), of h] j(1) len
      by (simp add: mark_one V_def)
  next
    case False
    then show ?thesis
      using unused_step_effect [OF Cons.prems(1,2) j Cons.prems(4), of h]
      by (simp add: V_def mark_none)
  qed
  define s1 where "s1 = s\<lparr>circles := mark h V (circles s)\<rparr>"
  have p1: "map cid (circles s1) = map node_id (nodes s1)"
    using Cons.prems(1) by (simp add: s1_def mark_cid)
  have p2: "distinct (map cid (circles s1))"
    using Cons.prems(2) by (simp add: s1_def mark_cid)
  have p3: "\<forall>j \<in> set js. j < length (nodes s1) \<and> ntype (nodes s1 ! j) = ''interface''"
    using Cons.prems(3) by (simp add: s1_def)
  have p4: "list_all css_ident (map cid (circles s1))"
    using Cons.prems(4) by (simp add: s1_def mark_cid)
  have "fold (unused_step h) (j # js) s = fold (unused_step h) js s1"
    using step by (simp add: s1_def)
  also have "\<dots> = s1\<lparr>circles := mark h (\<lambda>k. k \<in> set js \<and> unused_interface s1 k) (circles s1)\<rparr>"
    by (rule Cons.IH [OF p1 p2 p3 p4])
  also have "\<dots> = s\<lparr>circles := mark h (\<lambda>k. k \<in> set (j # js) \<and> unused_interface s k) (circles s)\<rparr>"
  proof -
    have "(\<lambda>k. (k \<in> set js \<and> unused_interface s k) \<or> V k) =
          (\<lambda>k. k \<in> set (j # js) \<and> unused_interface s k)"
      by (auto simp: V_def)
    then show ?thesis by (simp add: s1_def mark_mark)
  qed
  finally show ?case .
qed

lemma get_interfaces_set:
  "set (get_interfaces st) = {k. k < length (nodes st) \<and> ntype (nodes st ! k) = ''interface''}"
  by (auto simp: get_interfaces_def get_nodes_by_type_def)

lemma toggle_unused_interfaces_mark:
  assumes "circles_drawn st" and "distinct (map cid (circles st))" and "ids_plain st"
  shows "toggle_unused_interfaces h st =
         st\<lparr>circles := mark h (\<lambda>k. k < length (nodes st) \<and> unused_interface st k) (circles st)\<rparr>"
proof -
  have "(\<lambda>k. k \<in> set (get_interfaces st) \<and> unused_interface st k) =
        (\<lambda>k. k < length (nodes st) \<and> unused_interface st k)"
    by (auto simp: get_interfaces_set unused_interface_def)
  then show ?thesis
    using fold_unused_step [of st "get_interfaces st" h] assms
    by (simp add: circles_drawn_def ids_plain_def get_interfaces_set
        toggle_unused_interfaces_def)
qed


text \<open>
  When the chart has drawn one circle per node under pairwise different ids that are
  identifiers, \<open>toggle_unused_interfaces(true)\<close> sets the class \<open>invisible\<close> on the circles
  of exactly the interface nodes without a link of type \<open>link\<close> and leaves every other
  circle as it is; \<open>toggle_unused_interfaces(false)\<close> afterwards clears it on exactly those
  circles. The unused interfaces are those of the links at the time of the call: when
  the links change to \<open>ls\<close> between the two calls, the second call acts on the interfaces
  that are unused in \<open>ls\<close>.
\<close>

lemma toggle_unused_interfaces_plain:
  assumes "circles_drawn st" and "distinct (map cid (circles st))" and "ids_plain st"
    and "k < length (nodes st)"
  shows "nodes (toggle_unused_interfaces True st) = nodes st \<and>
         links (toggle_unused_interfaces True st) = links st \<and>
         circles (toggle_unused_interfaces True st) ! k =
           (if unused_interface st k then (circles st ! k)\<lparr>invisible := True\<rparr>
            else circles st ! k) \<and>
         circles (toggle_unused_interfaces False (toggle_unused_interfaces True st)) ! k =
           (if unused_interface st k then (circles st ! k)\<lparr>invisible := False\<rparr>
            else circles st ! k) \<and>
         circles (toggle_unused_interfaces False
                    ((toggle_unused_interfaces True st)\<lparr>links := ls\<rparr>)) ! k =
           (if unused_interface (st\<lparr>links := ls\<rparr>) k
            then (circles (toggle_unused_interfaces True st) ! k)\<lparr>invisible := False\<rparr>
            else circles (toggle_unused_interfaces True st) ! k)"
proof -
  define U where "U = (\<lambda>k. k < length (nodes st) \<and> unused_interface st k)"
  define on where "on = st\<lparr>circles := mark True U (circles st)\<rparr>"
  have len: "length (circles st) = length (nodes st)"
    using assms(1) by (metis circles_drawn_def length_map)
  have on: "toggle_unused_interfaces True st = on"
    unfolding on_def U_def by (rule toggle_unused_interfaces_mark [OF assms(1,2,3)])
  have wf_on: "circles_drawn (on\<lparr>links := ls'\<rparr>)"
    "distinct (map cid (circles (on\<lparr>links := ls'\<rparr>)))" "ids_plain (on\<lparr>links := ls'\<rparr>)"
    for ls'
    using assms(1,2,3) by (simp_all add: on_def circles_drawn_def ids_plain_def mark_cid)
  have off: "toggle_unused_interfaces False (on\<lparr>links := ls'\<rparr>) =
      on\<lparr>links := ls', circles := mark False
         (\<lambda>k. k < length (nodes st) \<and> unused_interface (st\<lparr>links := ls'\<rparr>) k) (circles on)\<rparr>"
    for ls'
    using toggle_unused_interfaces_mark [OF wf_on, of False ls']
    by (simp add: on_def unused_interface_def)
  have same: "on\<lparr>links := links st\<rparr> = on" "st\<lparr>links := links st\<rparr> = st"
    by (simp_all add: on_def)
  have k: "k < length (circles st)" using assms(4) len by simp
  have c1: "circles on ! k =
      (if unused_interface st k then (circles st ! k)\<lparr>invisible := True\<rparr> else circles st ! k)"
    using k assms(4) by (simp add: on_def mark_nth U_def)
  have c2: "circles (toggle_unused_interfaces False on) ! k =
      (if unused_interface st k then (circles st ! k)\<lparr>invisible := False\<rparr> else circles st ! k)"
    using off [of "links st"] k assms(4) c1
    by (simp add: same mark_nth on_def)
  have c3: "circles (toggle_unused_interfaces False (on\<lparr>links := ls\<rparr>)) ! k =
           (if unused_interface (st\<lparr>links := ls\<rparr>) k
            then (circles on ! k)\<lparr>invisible := False\<rparr> else circles on ! k)"
    using off [of ls] k assms(4) by (simp add: mark_nth on_def)
  show ?thesis
    unfolding on using c1 c2 c3 by (simp add: on_def)
qed

text \<open>Two unused interfaces whose names differ and whose ids coincide: the first circle
  is hidden for each of them, the second circle never.\<close>

lemma toggle_unused_interfaces_same_id:
  "unused_interface clash_state 1 \<and> unused_interface clash_state 2 \<and>
   map invisible (circles (toggle_unused_interfaces True clash_state)) = [False, True, False]"
  by (simp add: clash_state_def unused_interface_def toggle_unused_interfaces_def
      get_interfaces_def get_nodes_by_type_def unused_step_def get_node_links_def
      classed_invisible_def d3_select_def name_start_def name_char_def upt_rec)

text \<open>
  Claim C7 (the code departs from it). The interface \<open>sw1.eth1\<close> has no link of type \<open>link\<close>,
  but \<open>#node-interface-sw1.eth1\<close> selects by the id \<open>node-interface-sw1\<close> and the class
  \<open>eth1\<close>: no circle is selected, and toggling leaves the circle of the unused
  interface visible.
\<close>

theorem toggle_unused_interfaces_dotted_name:
  "unused_interface dot_state 1 \<and>
   d3_select ''node-interface-sw1.eth1'' (circles dot_state) = None \<and>
   toggle_unused_interfaces True dot_state = dot_state \<and>
   invisible (circles (toggle_unused_interfaces True dot_state) ! 1) = False"
  by (simp add: dot_state_def unused_interface_def toggle_unused_interfaces_def
      get_interfaces_def get_nodes_by_type_def unused_step_def get_node_links_def
      classed_invisible_def d3_select_def name_start_def name_char_def has_class_def upt_rec)

subsection \<open>Capturing and restoring a layout\<close>

lemma capture_node_drawn:
  assumes "circles_drawn st" and "ids_plain st" and "idx < length (nodes st)"
  shows "capture_node st idx obj = Inr (js_set (name (nodes st ! idx)) (captured st idx) obj)"
proof -
  obtain m where "d3_select (node_id (nodes st ! idx)) (circles st) = Some m"
    using d3_select_drawn [OF assms] by blast
  then show ?thesis
    by (simp add: capture_node_def get_classed_downlight_def captured_def Let_def)
qed

lemma each_capture:
  assumes "circles_drawn st" and "ids_plain st" and "\<forall>j \<in> set js. j < length (nodes st)"
  shows "each (capture_node st) js obj =
         Inr (fold (\<lambda>j. js_set (name (nodes st ! j)) (captured st j)) js obj)"
  using assms(3)
proof (induction js arbitrary: obj)
  case Nil
  show ?case by simp
next
  case (Cons j js)
  then show ?case by (simp add: capture_node_drawn [OF assms(1,2)])
qed

lemma has_property_set: "has_property k v (js_set k v obj)"
  by (cases "k = ''__proto__'' \<and> own obj k = None") (auto simp: has_property_def js_set_def)

lemma has_property_set_other:
  "k' \<noteq> k \<Longrightarrow> has_property k v obj \<Longrightarrow> has_property k v (js_set k' v' obj)"
  by (auto simp: has_property_def js_set_def)

lemma has_property_lookup:
  "has_property k v obj \<Longrightarrow> js_in k obj \<and> js_get k obj = Obj v"
  by (auto simp: has_property_def js_in_def js_get_def object_prototype_keys_def)

lemma fold_set_keeps:
  "has_property k v obj \<Longrightarrow> k \<notin> key ` set js \<Longrightarrow>
   has_property k v (fold (\<lambda>j. js_set (key j) (val j)) js obj)"
  by (induction js arbitrary: obj) (auto simp: has_property_set_other)

lemma fold_set_has:
  "distinct (map key js) \<Longrightarrow> i \<in> set js \<Longrightarrow>
   has_property (key i) (val i) (fold (\<lambda>j. js_set (key j) (val j)) js obj)"
proof (induction js arbitrary: obj)
  case Nil
  then show ?case by simp
next
  case (Cons j js)
  show ?case
  proof (cases "i = j")
    case True
    then have "key i \<notin> key ` set js" using Cons.prems(1) by simp
    then show ?thesis
      using True by (simp add: fold_set_keeps has_property_set)
  next
    case False
    then show ?thesis using Cons by simp
  qed
qed

lemma each_same:
  "\<forall>j \<in> set js. f j s = Inr s \<Longrightarrow> each f js s = Inr s"
  by (induction js) simp_all

text \<open>Restoring a node from an entry that holds the node's own values changes
  nothing.\<close>

lemma restore_node_same:
  assumes "circles_drawn st" and "ids_plain st" and "idx < length (nodes st)"
    and "js_in (name (nodes st ! idx)) (l_nodes lay)"
    and "js_get (name (nodes st ! idx)) (l_nodes lay) = Obj v"
    and "d_x v = pos_x (nodes st ! idx)" and "d_y v = pos_y (nodes st ! idx)"
    and "d_fx v = fx (nodes st ! idx)" and "d_fy v = fy (nodes st ! idx)"
    and "d_downlight v = d_downlight (captured st idx)"
  shows "restore_node lay idx st = Inr st"
proof -
  obtain m where m: "d3_select (node_id (nodes st ! idx)) (circles st) = Some m"
    "m < length (circles st)"
    using d3_select_drawn [OF assms(1,2,3)] by blast
  have same: "update_node idx (\<lambda>n. n\<lparr>pos_x := pos_x (nodes st ! idx), pos_y := pos_y (nodes st ! idx),
      fx := fx (nodes st ! idx), fy := fy (nodes st ! idx)\<rparr>) st = st"
    by (simp add: update_node_def)
  have "apply_restored idx (pos_x (nodes st ! idx)) (pos_y (nodes st ! idx))
      (fx (nodes st ! idx)) (fy (nodes st ! idx)) (downlight (circles st ! m)) st = st"
    using m by (simp add: apply_restored_def same Let_def classed_downlight_def)
  moreover have "d_downlight v = downlight (circles st ! m)"
    using assms(10) m by (simp add: captured_def)
  ultimately show ?thesis
    using assms(4-9) by (simp add: restore_node_def)
qed

lemma captured_layout:
  assumes "circles_drawn st" and "ids_plain st" and "distinct (map name (nodes st))"
  shows "\<exists>lay. get_current_layout st = Inr lay \<and>
           o_hide_unused_interfaces lay = hide_unused_interfaces st \<and>
           o_hide_disconnected_hosts lay = hide_disconnected_hosts st \<and>
           (\<forall>j < length (nodes st).
              has_property (name (nodes st ! j)) (captured st j) (l_nodes lay))"
proof -
  define obj where
    "obj = fold (\<lambda>j. js_set (name (nodes st ! j)) (captured st j)) [0..<length (nodes st)]
             \<lparr>own = Map.empty, proto = None\<rparr>"
  define lay where
    "lay = \<lparr>l_nodes = obj, o_hide_unused_interfaces = hide_unused_interfaces st,
            o_hide_disconnected_hosts = hide_disconnected_hosts st\<rparr>"
  have cap: "get_current_layout st = Inr lay"
    using each_capture [OF assms(1,2), of "[0..<length (nodes st)]"]
    by (simp add: get_current_layout_def lay_def obj_def)
  have "map (\<lambda>j. name (nodes st ! j)) [0..<length (nodes st)] = map name (nodes st)"
    by (rule nth_equalityI) simp_all
  then have dist: "distinct (map (\<lambda>j. name (nodes st ! j)) [0..<length (nodes st)])"
    using assms(3) by simp
  have "has_property (name (nodes st ! j)) (captured st j) (l_nodes lay)"
    if "j < length (nodes st)" for j
    using fold_set_has [OF dist, of j "captured st"] that by (simp add: lay_def obj_def)
  then show ?thesis using cap by (auto simp: lay_def)
qed

lemma restore_same:
  assumes "\<forall>j < length (nodes st). restore_node lay j st = Inr st"
    and "o_hide_unused_interfaces lay = hide_unused_interfaces st"
    and "o_hide_disconnected_hosts lay = hide_disconnected_hosts st"
  shows "restore_layout click_interfaces click_hosts lay st =
         Inr (st\<lparr>effects := effects st @ [SimRestart]\<rparr>)"
proof -
  have "\<forall>j \<in> set [0..<length (nodes st)]. restore_node lay j st = Inr st"
    using assms(1) by simp
  then have "each (restore_node lay) [0..<length (nodes st)] st = Inr st"
    by (rule each_same)
  then show ?thesis using assms(2,3) by (simp add: restore_layout_def)
qed

text \<open>
  When every node has its circle under an id that is an identifier and node names are
  pairwise different, the callback of \<open>restore_layout\<close> run on the very object that
  \<open>get_current_layout\<close> returns leaves the state as it was, but for the restart of the
  simulation.
\<close>

lemma capture_restore_direct:
  assumes "circles_drawn st" and "ids_plain st" and "distinct (map name (nodes st))"
  shows "\<exists>lay. get_current_layout st = Inr lay \<and>
           restore_layout click_interfaces click_hosts lay st =
             Inr (st\<lparr>effects := effects st @ [SimRestart]\<rparr>)"
proof -
  obtain lay where lay: "get_current_layout st = Inr lay"
    "o_hide_unused_interfaces lay = hide_unused_interfaces st"
    "o_hide_disconnected_hosts lay = hide_disconnected_hosts st"
    "\<forall>j < length (nodes st). has_property (name (nodes st ! j)) (captured st j) (l_nodes lay)"
    using captured_layout [OF assms] by blast
  have "restore_node lay j st = Inr st" if "j < length (nodes st)" for j
    using lay(4) that has_property_lookup
    by (intro restore_node_same [OF assms(1,2) that, of lay "captured st j"])
       (auto simp: captured_def)
  then show ?thesis using lay(1) restore_same [OF _ lay(2,3)] by blast
qed

text \<open>
  The same through the store, which holds the layout as JSON: it holds when moreover no
  node is named \<open>__proto__\<close> and no coordinate is \<open>NaN\<close>.
\<close>

lemma json_value_same: "v \<noteq> NaN \<Longrightarrow> json_value v = v"
  by (cases v) simp_all

lemma capture_json_restore:
  assumes "circles_drawn st" and "ids_plain st" and "distinct (map name (nodes st))"
    and "\<forall>n \<in> set (nodes st). name n \<noteq> ''__proto__''"
    and "\<forall>n \<in> set (nodes st). pos_x n \<noteq> NaN \<and> pos_y n \<noteq> NaN \<and> fx n \<noteq> NaN \<and> fy n \<noteq> NaN"
  shows "\<exists>lay. get_current_layout st = Inr lay \<and>
           restore_layout click_interfaces click_hosts (json_layout lay) st =
             Inr (st\<lparr>effects := effects st @ [SimRestart]\<rparr>)"
proof -
  obtain lay where lay: "get_current_layout st = Inr lay"
    "o_hide_unused_interfaces lay = hide_unused_interfaces st"
    "o_hide_disconnected_hosts lay = hide_disconnected_hosts st"
    "\<forall>j < length (nodes st). has_property (name (nodes st ! j)) (captured st j) (l_nodes lay)"
    using captured_layout [OF assms(1-3)] by blast
  have "restore_node (json_layout lay) j st = Inr st" if "j < length (nodes st)" for j
  proof -
    have n: "nodes st ! j \<in> set (nodes st)" using that by simp
    then have "name (nodes st ! j) \<noteq> ''__proto__''" using assms(4) by blast
    then have "own (l_nodes lay) (name (nodes st ! j)) = Some (captured st j)"
      using lay(4) that by (auto simp: has_property_def)
    then have own: "own (l_nodes (json_layout lay)) (name (nodes st ! j)) =
        Some (json_node_data (captured st j))"
      by (simp add: json_layout_def)
    have num: "pos_x (nodes st ! j) \<noteq> NaN" "pos_y (nodes st ! j) \<noteq> NaN"
      "fx (nodes st ! j) \<noteq> NaN" "fy (nodes st ! j) \<noteq> NaN"
      using assms(5) n by blast+
    show ?thesis
      using own num
      by (intro restore_node_same [OF assms(1,2) that, of _ "json_node_data (captured st j)"])
         (simp_all add: js_in_def js_get_def json_node_data_def captured_def json_value_same)
  qed
  then show ?thesis
    using lay(1) restore_same [of st "json_layout lay"] lay(2,3)
    by (auto simp: json_layout_def)
qed

text \<open>A node named \<open>__proto__\<close> becomes the prototype of \<open>layout.nodes\<close>, not a property of
  it, and is not written to the store: what comes back inherits \<open>__proto__\<close> from
  \<open>Object.prototype\<close>, and restoring it overwrites the node with \<open>undefined\<close>.\<close>

lemma capture_json_restore_proto_name:
  "\<exists>lay. get_current_layout proto_state = Inr lay \<and>
     own (l_nodes (json_layout lay)) ''__proto__'' = None \<and>
     restore_layout (\<lambda>s. s) (\<lambda>s. s) (json_layout lay) proto_state =
       Inr (proto_state
            \<lparr>nodes := [\<lparr>name = ''__proto__'', ntype = ''host'', pos_x = Undefined,
                        pos_y = Undefined, fx = Undefined, fy = Undefined,
                        old_fx = Undefined, old_fy = Undefined\<rparr>],
             circles := [\<lparr>cid = ''node-host-__proto__'', downlight = False, invisible = False\<rparr>],
             effects := [SimRestart]\<rparr>)"
  by (simp add: proto_state_def get_current_layout_def capture_node_def
      get_classed_downlight_def js_set_def json_layout_def restore_layout_def restore_node_def
      js_in_def js_get_def object_prototype_keys_def apply_restored_def update_node_def
      classed_downlight_def node_id_def d3_select_def name_start_def name_char_def Let_def)

text \<open>
  Claim C5 (the code departs from it). For the interface \<open>sw1.eth1\<close> the selection
  \<open>#node-interface-sw1.eth1\<close> is empty, reading its class \<open>downlight\<close> throws, and
  \<open>get_current_layout\<close> does not return: there is no layout to restore, where the claim
  has the round trip succeed and change nothing.
\<close>

theorem get_current_layout_dotted_name:
  "d3_select (node_id (nodes dot_state ! 1)) (circles dot_state) = None \<and>
   get_current_layout dot_state = Inl TypeError"
  by (simp add: dot_state_def get_current_layout_def capture_node_def
      get_classed_downlight_def js_set_def node_id_def d3_select_def name_start_def
      name_char_def has_class_def Let_def)

text \<open>
  Claim C6 (the code departs from it). The test \<open>node.name in layout.nodes\<close> also holds
  for a name that \<open>layout.nodes\<close> inherits from \<open>Object.prototype\<close>. The layout below has
  no node, yet restoring it overwrites \<open>x\<close>, \<open>y\<close>, \<open>fx\<close>, \<open>fy\<close> of the host named
  \<open>toString\<close> with \<open>undefined\<close> and removes its class \<open>downlight\<close>.
\<close>

theorem restore_layout_inherited_name:
  "own (l_nodes empty_layout) (name (nodes shadowed_state ! 0)) = None \<and>
   restore_layout (\<lambda>s. s) (\<lambda>s. s) empty_layout shadowed_state =
     Inr (shadowed_state
          \<lparr>nodes := [\<lparr>name = ''toString'', ntype = ''host'', pos_x = Undefined, pos_y = Undefined,
                      fx = Undefined, fy = Undefined, old_fx = Undefined, old_fy = Undefined\<rparr>],
           circles := [\<lparr>cid = ''node-host-toString'', downlight = False, invisible = False\<rparr>],
           effects := [SimRestart]\<rparr>)"
  by (simp add: shadowed_state_def empty_layout_def restore_layout_def restore_node_def
      js_in_def js_get_def object_prototype_keys_def apply_restored_def update_node_def
      classed_downlight_def node_id_def d3_select_def name_start_def name_char_def Let_def)

text \<open>A node whose name the test \<open>in\<close> does not find keeps all its fields.\<close>

lemma apply_restored_other:
  "k \<noteq> j \<Longrightarrow> nodes (apply_restored j vx vy vfx vfy dl s) ! k = nodes s ! k"
  by (simp add: apply_restored_def update_node_def Let_def)

lemma restore_node_other:
  assumes "restore_node lay j s = Inr s'" and "k \<noteq> j"
  shows "nodes s' ! k = nodes s ! k"
  using assms
  by (auto simp: restore_node_def apply_restored_other split: if_splits looked_up.splits)

lemma each_restore_frame:
  assumes "each (restore_node lay) js s = Inr s'"
    and "\<not> js_in (name (nodes s ! k)) (l_nodes lay)"
  shows "nodes s' ! k = nodes s ! k"
  using assms
proof (induction js arbitrary: s)
  case Nil
  then show ?case by simp
next
  case (Cons j js)
  from Cons.prems(1) obtain s1 where
    s1: "restore_node lay j s = Inr s1" and rest: "each (restore_node lay) js s1 = Inr s'"
    by (auto split: sum.splits)
  have same: "nodes s1 ! k = nodes s ! k"
  proof (cases "k = j")
    case True
    then have "s1 = s" using s1 Cons.prems(2) by (simp add: restore_node_def)
    then show ?thesis by simp
  next
    case False
    then show ?thesis using restore_node_other [OF s1] by simp
  qed
  then have "\<not> js_in (name (nodes s1 ! k)) (l_nodes lay)" using Cons.prems(2) by simp
  then show ?case using Cons.IH [OF rest] same by simp
qed

subsection \<open>Saving and listing layouts\<close>

lemma get_current_layout_drawn:
  "circles_drawn st \<Longrightarrow> ids_plain st \<Longrightarrow> \<exists>lay. get_current_layout st = Inr lay"
  using each_capture [of st "[0..<length (nodes st)]"]
  by (simp add: get_current_layout_def)

lemma demo_drawn: "circles_drawn demo_state" "ids_plain demo_state"
  by (simp_all add: demo_state_def circles_drawn_def ids_plain_def node_id_def
      name_start_def name_char_def)

text \<open>With a name in the dialog and every circle drawn under an identifier,
  \<open>save_layout\<close> returns with the request issued and the dialog hidden.\<close>

lemma save_layout_effects:
  assumes "layout_name_input st \<noteq> []" and "circles_drawn st" and "ids_plain st"
  shows "\<exists>lay s. save_layout st = Inr s \<and>
           effects s = effects st @ [AjaxPost (layouts_url @ layout_name_input st) lay, ModalHide]"
proof -
  define st1 where "st1 = st\<lparr>layout_name := layout_name_input st\<rparr>"
  have "circles_drawn st1" "ids_plain st1"
    using assms(2,3) by (simp_all add: st1_def circles_drawn_def ids_plain_def)
  then obtain lay where "get_current_layout st1 = Inr lay"
    using get_current_layout_drawn by blast
  then show ?thesis
    using assms(1) by (simp add: save_layout_def Let_def st1_def)
qed

text \<open>
  Claim C8 (the code departs from it). With the name \<open>A\<close> in the dialog, \<open>save_layout\<close>
  returns with the request issued and the dialog already hidden: the hide comes before
  the store has answered. A failure is followed by nothing at all, a success by two
  confirmations, each followed by another hide.
\<close>

theorem save_layout_hides_at_once:
  "\<exists>lay s. save_layout demo_state = Inr s \<and>
      effects s = [AjaxPost (layouts_url @ ''A'') lay, ModalHide] \<and>
      effects (save_layout_resolved False s) = effects s \<and>
      effects (save_layout_resolved True s) =
        effects s @ [Alert ''Layout A saved.'', ModalHide, Alert ''Layout A saved.'', ModalHide]"
proof -
  define st1 where "st1 = demo_state\<lparr>layout_name := ''A''\<rparr>"
  have "circles_drawn st1" "ids_plain st1"
    using demo_drawn by (simp_all add: st1_def circles_drawn_def ids_plain_def)
  then obtain lay where lay: "get_current_layout st1 = Inr lay"
    using get_current_layout_drawn by blast
  have inp: "layout_name_input demo_state = ''A''" "effects demo_state = []"
    by (simp_all add: demo_state_def)
  have "save_layout demo_state =
      Inr (st1\<lparr>effects := [AjaxPost (layouts_url @ ''A'') lay, ModalHide]\<rparr>)"
    using lay inp by (simp add: save_layout_def Let_def st1_def)
  then show ?thesis
    by (simp add: save_layout_resolved_def save_layout_done_def save_layout_success_def st1_def)
qed

text \<open>When the response is absent (\<open>undefined\<close> or \<open>null\<close>), the handler shows the notice
  and leaves the \<open>savedLayouts\<close> control, like the rest of the state, untouched.\<close>

lemma load_layouts_notice_when_absent:
  "load_layouts_success RUndefined st =
     st\<lparr>effects := effects st @ [Alert ''There isn't any saved layout to be loaded'']\<rparr> \<and>
   load_layouts_success RNull st =
     st\<lparr>effects := effects st @ [Alert ''There isn't any saved layout to be loaded'']\<rparr>"
  by (simp add: load_layouts_success_def)

text \<open>
  Claim C9 (the code departs from it). When the store answers with the empty array, which
  also means that no layout is saved, the handler shows no notice: it empties the control
  and fills it with the placeholder option alone.
\<close>

theorem load_layouts_empty_array_no_notice:
  "effects (load_layouts_success (RArray []) demo_state) = [] \<and>
   savedLayouts (load_layouts_success (RArray []) demo_state) = [Placeholder]"
  by (simp add: load_layouts_success_def demo_state_def)

end
